theory Spec2Isabelle
  imports Complex_Main "HOL-Library.Monad_Syntax" "HOL-Library.Stream"
begin

section \<open>Data model of main.go\<close>

text \<open>
  The Go structs become records. Go allows the same field name in several structs; here
  each field carries the initial of its struct (\<open>cName\<close> is \<open>ClassNode.Name\<close>,
  \<open>sName\<close> is \<open>ScalarNode.Name\<close>, and so on).

  \<open>float64\<close> is modelled by \<open>real\<close>: arithmetic is exact, there is no rounding and no
  overflow. Go's float division never panics; a zero divisor or the square root of a
  negative number yields an infinity or a NaN. Those values do not exist in \<open>real\<close>, so
  the two operations that can produce them are checked (\<open>fdiv\<close>, \<open>fsqrt\<close>) and return
  \<open>None\<close>; a computation that returns \<open>None\<close> is one in which the Go program goes on
  with a non-finite number. \<open>Some\<close> means every number that was computed is an ordinary
  real.

  Rounding and the range of \<open>float64\<close> are outside that model. A second embedding
  of \<open>calculateLayout\<close> computes with the binary64 values themselves (sections
  \<open>binary64 arithmetic\<close> and \<open>calculateLayout over binary64\<close>); what becomes of
  coincident nodes and of relations that do not resolve is stated about that one.
\<close>

record Position =
  X :: real
  Y :: real

record Field =
  fName :: string
  fType :: string
  fIsRequired :: bool

record ClassNode =
  cID :: string
  cName :: string
  cFields :: "Field list"
  cPosition :: Position
  cWidth :: real
  cHeight :: real

record ScalarNode =
  sName :: string
  sDescription :: string
  sPosition :: Position

record Relation =
  rFrom :: string
  rTo :: string
  rType :: string
  rEdgeType :: string

record ArgumentNode =
  aName :: string
  aType :: string
  aIsRequired :: bool
  aDefaultValue :: string

record DirectiveNode =
  dName :: string
  dDescription :: string
  dArguments :: "ArgumentNode list"
  dLocations :: "string list"
  dPosition :: Position

datatype DiagramFormat = Mermaid | DrawIO

text \<open>
  \<open>Classes\<close>, \<open>Scalars\<close> and \<open>Directives\<close> are slices of pointers in Go. The model
  keeps the pointed-to structs in lists; a pointer is the index of its struct. This is
  faithful as long as no pointer occurs twice in \<open>Classes\<close>, which holds for every
  diagram the program builds (\<open>processSchema\<close> and \<open>generateDrawIOXML\<close> allocate a
  fresh node for each entry).
\<close>

record Diagram =
  Classes :: "ClassNode list"
  Relations :: "Relation list"
  Scalars :: "ScalarNode list"
  Directives :: "DirectiveNode list"
  format :: DiagramFormat
  maxWidth :: real
  maxHeight :: real

definition ClassWidth :: real where "ClassWidth = 200"
definition ClassHeaderHeight :: real where "ClassHeaderHeight = 30"
definition FieldHeight :: real where "FieldHeight = 20"
definition ScalarWidth :: real where "ScalarWidth = 80"
definition ScalarHeight :: real where "ScalarHeight = 80"
definition DirectiveWidth :: real where "DirectiveWidth = 160"
definition DirectiveHeight :: real where "DirectiveHeight = 90"

section \<open>The random source\<close>

text \<open>
  \<open>rand.Float64()\<close> reads the process-wide source of \<open>math/rand\<close>. The model makes the
  source explicit: the stream of the values the next calls will return. A call takes the
  head and leaves the tail.
\<close>

type_synonym rng = "real stream"

definition Float64 :: "rng \<Rightarrow> real \<times> rng" where
  "Float64 r = (shd r, stl r)"

section \<open>Checked float operations\<close>

definition fdiv :: "real \<Rightarrow> real \<Rightarrow> real option" where
  "fdiv a b = (if b = 0 then None else Some (a / b))"

definition fsqrt :: "real \<Rightarrow> real option" where
  "fsqrt a = (if a < 0 then None else Some (sqrt a))"

section \<open>calculateLayout\<close>

definition iterations :: nat where
  "iterations = 100"

text \<open>
  Line 157: \<open>k := math.Sqrt(d.maxWidth * d.maxHeight / float64(totalNodes))\<close>.
  With no node the divisor is zero and \<open>k\<close> is not a finite number (\<open>None\<close>); the
  function goes on all the same, and \<open>k\<close> only matters where it is read.
\<close>

definition layoutK :: "Diagram \<Rightarrow> real option" where
  "layoutK d =
     (let totalNodes = length (Classes d) + length (Scalars d) + length (Directives d)
      in do { q \<leftarrow> fdiv (maxWidth d * maxHeight d) (real totalNodes); fsqrt q })"

text \<open>Lines 162-170: one working node per scalar, at a random place of the canvas.\<close>

fun scalarNodes :: "real \<Rightarrow> real \<Rightarrow> ScalarNode list \<Rightarrow> rng \<Rightarrow> ClassNode list \<times> rng" where
  "scalarNodes w h [] r = ([], r)"
| "scalarNodes w h (scalar # rest) r =
     (let (x, r1) = Float64 r;
          (y, r2) = Float64 r1;
          node = \<lparr>cID = ''scalar_'' @ sName scalar, cName = sName scalar, cFields = [],
                  cPosition = \<lparr>X = x * w, Y = y * h\<rparr>,
                  cWidth = ScalarWidth, cHeight = ScalarHeight\<rparr>;
          (nodes, r3) = scalarNodes w h rest r2
      in (node # nodes, r3))"

text \<open>Lines 172-181: one working node per directive, at a random place of the canvas.\<close>

fun directiveNodes :: "real \<Rightarrow> real \<Rightarrow> DirectiveNode list \<Rightarrow> rng \<Rightarrow> ClassNode list \<times> rng" where
  "directiveNodes w h [] r = ([], r)"
| "directiveNodes w h (directive # rest) r =
     (let height = DirectiveHeight + real (length (dArguments directive)) * FieldHeight;
          (x, r1) = Float64 r;
          (y, r2) = Float64 r1;
          node = \<lparr>cID = ''directive_'' @ dName directive, cName = ''@'' @ dName directive,
                  cFields = [],
                  cPosition = \<lparr>X = x * w, Y = y * h\<rparr>,
                  cWidth = DirectiveWidth, cHeight = height\<rparr>;
          (nodes, r3) = directiveNodes w h rest r2
      in (node # nodes, r3))"

text \<open>
  Lines 159-181: \<open>allNodes\<close> before the first iteration. The class nodes are the
  structs of \<open>d.Classes\<close> themselves (the slice holds the same pointers), the scalar and
  directive nodes are new structs that exist only during the call.
\<close>

definition initialNodes :: "Diagram \<Rightarrow> rng \<Rightarrow> ClassNode list \<times> rng" where
  "initialNodes d r =
     (let (snodes, r1) = scalarNodes (maxWidth d) (maxHeight d) (Scalars d) r;
          (dnodes, r2) = directiveNodes (maxWidth d) (maxHeight d) (Directives d) r1
      in (Classes d @ snodes @ dnodes, r2))"

text \<open>Lines 187-192: the body of the repulsion loops, for \<open>v\<close> and one other node \<open>u\<close>.\<close>

definition repel :: "real option \<Rightarrow> ClassNode \<Rightarrow> ClassNode \<Rightarrow> ClassNode option" where
  "repel k v u =
     (let dx = X (cPosition v) - X (cPosition u);
          dy = Y (cPosition v) - Y (cPosition u);
          dist = max 0.1 (sqrt (dx * dx + dy * dy))
      in do {
           kv \<leftarrow> k;
           force \<leftarrow> fdiv (kv * kv) dist;
           ux \<leftarrow> fdiv dx dist;
           uy \<leftarrow> fdiv dy dist;
           Some (v\<lparr>cPosition := \<lparr>X = X (cPosition v) + ux * force,
                                  Y = Y (cPosition v) + uy * force\<rparr>\<rparr>)
         })"

text \<open>
  Lines 185-194: the inner loop for the node at index \<open>i\<close>. \<open>v != u\<close> compares
  pointers, that is indices. \<open>v\<close> is updated in place, so each step reads the position
  the previous step wrote.
\<close>

fun repelInner :: "real option \<Rightarrow> nat \<Rightarrow> nat list \<Rightarrow> ClassNode list \<Rightarrow> ClassNode list option" where
  "repelInner k i [] ns = Some ns"
| "repelInner k i (j # js) ns =
     (if i \<noteq> j
      then do { v \<leftarrow> repel k (ns ! i) (ns ! j); repelInner k i js (ns[i := v]) }
      else repelInner k i js ns)"

text \<open>Lines 184-195: the outer loop.\<close>

fun repelOuter :: "real option \<Rightarrow> nat list \<Rightarrow> ClassNode list \<Rightarrow> ClassNode list option" where
  "repelOuter k [] ns = Some ns"
| "repelOuter k (i # is) ns =
     do { ns1 \<leftarrow> repelInner k i [0..<length ns] ns; repelOuter k is ns1 }"

definition repulsionPass :: "real option \<Rightarrow> ClassNode list \<Rightarrow> ClassNode list option" where
  "repulsionPass k ns = repelOuter k [0..<length ns] ns"

text \<open>
  Lines 198-206: the scan for an endpoint. A later node of the same name replaces an
  earlier one, so the result is the last index whose node has the name, or \<open>nil\<close>.
\<close>

fun scanName :: "string \<Rightarrow> ClassNode list \<Rightarrow> nat \<Rightarrow> nat option \<Rightarrow> nat option" where
  "scanName nm [] i found = found"
| "scanName nm (node # rest) i found =
     scanName nm rest (Suc i) (if cName node = nm then Some i else found)"

definition findNode :: "string \<Rightarrow> ClassNode list \<Rightarrow> nat option" where
  "findNode nm ns = scanName nm ns 0 None"

text \<open>
  Lines 207-218: the pull along one relation. The four assignments run in the source's
  order, so when both names resolve to the same node the second pair reads what the first
  pair wrote.
\<close>

definition attract :: "real option \<Rightarrow> Relation \<Rightarrow> ClassNode list \<Rightarrow> ClassNode list option" where
  "attract k rel ns =
     (case (findNode (rFrom rel) ns, findNode (rTo rel) ns) of
        (Some f, Some t) \<Rightarrow>
          (let dx = X (cPosition (ns ! f)) - X (cPosition (ns ! t));
               dy = Y (cPosition (ns ! f)) - Y (cPosition (ns ! t));
               dist = max 0.1 (sqrt (dx * dx + dy * dy))
           in do {
                kv \<leftarrow> k;
                force \<leftarrow> fdiv (dist * dist) kv;
                ux \<leftarrow> fdiv dx dist;
                uy \<leftarrow> fdiv dy dist;
                let dx2 = ux * force;
                let dy2 = uy * force;
                let ns1 = ns[f := (ns ! f)\<lparr>cPosition :=
                             \<lparr>X = X (cPosition (ns ! f)) - dx2,
                              Y = Y (cPosition (ns ! f)) - dy2\<rparr>\<rparr>];
                Some (ns1[t := (ns1 ! t)\<lparr>cPosition :=
                             \<lparr>X = X (cPosition (ns1 ! t)) + dx2,
                              Y = Y (cPosition (ns1 ! t)) + dy2\<rparr>\<rparr>])
              })
      | _ \<Rightarrow> Some ns)"

text \<open>Lines 197-219: the loop over \<open>d.Relations\<close>.\<close>

fun attractionPass :: "real option \<Rightarrow> Relation list \<Rightarrow> ClassNode list \<Rightarrow> ClassNode list option" where
  "attractionPass k [] ns = Some ns"
| "attractionPass k (rel # rels) ns =
     do { ns1 \<leftarrow> attract k rel ns; attractionPass k rels ns1 }"

text \<open>Lines 183-220: \<open>n\<close> rounds of repulsion followed by attraction.\<close>

fun simulate :: "nat \<Rightarrow> real option \<Rightarrow> Relation list \<Rightarrow> ClassNode list \<Rightarrow> ClassNode list option" where
  "simulate 0 k rels ns = Some ns"
| "simulate (Suc n) k rels ns =
     do { ns1 \<leftarrow> repulsionPass k ns;
          ns2 \<leftarrow> attractionPass k rels ns1;
          simulate n k rels ns2 }"

text \<open>
  Lines 154-221. The function returns nothing in Go; what it changes is the structs behind
  \<open>d.Classes\<close> (the first \<open>length (Classes d)\<close> entries of \<open>allNodes\<close>) and the random
  source. The working nodes of scalars and directives are dropped at the end.
\<close>

definition calculateLayout :: "Diagram \<Rightarrow> rng \<Rightarrow> (Diagram \<times> rng) option" where
  "calculateLayout d r =
     (let k = layoutK d;
          (allNodes, r1) = initialNodes d r
      in do {
           ns \<leftarrow> simulate iterations k (Relations d) allNodes;
           Some (d\<lparr>Classes := take (length (Classes d)) ns\<rparr>, r1)
         })"

section \<open>generateDrawIOXML\<close>

definition ClassStyle :: string where
  "ClassStyle = ''swimlane;fontStyle=1;align=center;verticalAlign=top;childLayout=stackLayout;horizontal=1;startSize=30;horizontalStack=0;resizeParent=1;resizeParentMax=0;resizeLast=0;collapsible=1;marginBottom=0;''"

definition FieldStyle :: string where
  "FieldStyle = ''text;strokeColor=none;fillColor=none;align=left;verticalAlign=top;spacingLeft=4;spacingRight=4;overflow=hidden;rotatable=0;points=[[0,0.5],[1,0.5]];portConstraint=eastwest;''"

definition EdgeStyle :: string where
  "EdgeStyle = ''edgeStyle=orthogonalEdgeStyle;rounded=1;orthogonalLoop=1;jettySize=auto;html=1;''"

definition ScalarStyle :: string where
  "ScalarStyle = ''ellipse;whiteSpace=wrap;html=1;aspect=fixed;fillColor=#f5f5f5;''"

definition DirectiveStyle :: string where
  "DirectiveStyle = ''shape=hexagon;perimeter=hexagonPerimeter2;whiteSpace=wrap;html=1;fixedSize=1;fillColor=#fff2cc;strokeColor=#d6b656;''"

definition ArgumentStyle :: string where
  "ArgumentStyle = ''text;strokeColor=none;fillColor=none;align=left;verticalAlign=top;spacingLeft=4;spacingRight=4;overflow=hidden;rotatable=0;points=[[0,0.5],[1,0.5]];portConstraint=eastwest;''"

record MxGeometry =
  gX :: real
  gY :: real
  gWidth :: real
  gHeight :: real
  gRelative :: string

text \<open>A string field that the Go literal leaves out is the empty string; a nil
  \<open>Geometry\<close> pointer is \<open>None\<close>.\<close>

record MxCell =
  mID :: string
  mValue :: string
  mStyle :: string
  mParent :: string
  mVertex :: string
  mEdge :: string
  mSource :: string
  mTarget :: string
  mGeometry :: "MxGeometry option"

text \<open>\<open>MxFile\<close>, \<open>MxDiagram\<close>, \<open>MxGraphModel\<close> and \<open>MxRoot\<close> nest one name and one
  list of cells; the model keeps the two.\<close>

record MxFile =
  diagramName :: string
  Cells :: "MxCell list"

text \<open>The \<open>%d\<close> verb of \<open>fmt.Sprintf\<close> on an index that is never negative.\<close>

fun showNat :: "nat \<Rightarrow> string" where
  "showNat n =
     (if n < 10 then [char_of (48 + n)]
      else showNat (n div 10) @ [char_of (48 + n mod 10)])"

declare showNat.simps [simp del]

definition newline :: string where
  "newline = [CHR 0x0A]"

text \<open>\<open>strings.Join\<close>.\<close>

fun joinStrings :: "string list \<Rightarrow> string \<Rightarrow> string" where
  "joinStrings [] sep = []"
| "joinStrings [a] sep = a"
| "joinStrings (a # b # rest) sep = a @ sep @ joinStrings (b # rest) sep"

text \<open>Lines 258-278: the cells of the fields of one class, \<open>i\<close> the index of the first.\<close>

fun fieldCells :: "ClassNode \<Rightarrow> nat \<Rightarrow> Field list \<Rightarrow> MxCell list" where
  "fieldCells class i [] = []"
| "fieldCells class i (field # rest) =
     (let fieldValue = fName field @ '': '' @ fType field;
          fieldValue = (if fIsRequired field then fieldValue @ ''!'' else fieldValue)
      in \<lparr>mID = cID class @ ''_f'' @ showNat i, mValue = fieldValue, mStyle = FieldStyle,
          mParent = cID class, mVertex = ''1'', mEdge = [], mSource = [], mTarget = [],
          mGeometry = Some \<lparr>gX = 0, gY = ClassHeaderHeight + real i * FieldHeight,
                             gWidth = ClassWidth, gHeight = FieldHeight, gRelative = []\<rparr>\<rparr>
         # fieldCells class (Suc i) rest)"

text \<open>Lines 240-279: the cell of one class, followed by the cells of its fields.\<close>

definition classCells :: "ClassNode \<Rightarrow> MxCell list" where
  "classCells class =
     (let height = ClassHeaderHeight + real (length (cFields class)) * FieldHeight
      in \<lparr>mID = cID class, mValue = cName class, mStyle = ClassStyle,
          mParent = ''1'', mVertex = ''1'', mEdge = [], mSource = [], mTarget = [],
          mGeometry = Some \<lparr>gX = X (cPosition class), gY = Y (cPosition class),
                             gWidth = ClassWidth, gHeight = height, gRelative = []\<rparr>\<rparr>
         # fieldCells class 0 (cFields class))"

text \<open>Lines 281-294: one edge cell per relation, \<open>i\<close> the index of the first.\<close>

fun edgeCells :: "nat \<Rightarrow> Relation list \<Rightarrow> MxCell list" where
  "edgeCells i [] = []"
| "edgeCells i (rel # rest) =
     \<lparr>mID = ''e'' @ showNat i, mValue = [], mStyle = EdgeStyle,
      mParent = ''1'', mVertex = [], mEdge = ''1'', mSource = rFrom rel, mTarget = rTo rel,
      mGeometry = Some \<lparr>gX = 0, gY = 0, gWidth = 0, gHeight = 0, gRelative = ''1''\<rparr>\<rparr>
     # edgeCells (Suc i) rest"

text \<open>Lines 296-305: the node appended to \<open>d.Classes\<close> for one scalar.\<close>

definition scalarClass :: "ScalarNode \<Rightarrow> ClassNode" where
  "scalarClass scalar =
     \<lparr>cID = ''scalar_'' @ sName scalar, cName = sName scalar, cFields = [],
      cPosition = \<lparr>X = 0, Y = 0\<rparr>, cWidth = ScalarWidth, cHeight = ScalarHeight\<rparr>"

text \<open>Lines 309-324: the cell of one scalar. Its place is read from the
  \<open>ScalarNode\<close>.\<close>

definition scalarCell :: "ScalarNode \<Rightarrow> MxCell" where
  "scalarCell scalar =
     \<lparr>mID = ''scalar_'' @ sName scalar, mValue = sName scalar, mStyle = ScalarStyle,
      mParent = ''1'', mVertex = ''1'', mEdge = [], mSource = [], mTarget = [],
      mGeometry = Some \<lparr>gX = X (sPosition scalar), gY = Y (sPosition scalar),
                         gWidth = ScalarWidth, gHeight = ScalarHeight, gRelative = []\<rparr>\<rparr>"

text \<open>Lines 326-335: the node appended to \<open>d.Classes\<close> for one directive.\<close>

definition directiveClass :: "DirectiveNode \<Rightarrow> ClassNode" where
  "directiveClass directive =
     \<lparr>cID = ''directive_'' @ dName directive, cName = ''@'' @ dName directive, cFields = [],
      cPosition = \<lparr>X = 0, Y = 0\<rparr>, cWidth = DirectiveWidth,
      cHeight = DirectiveHeight + real (length (dArguments directive)) * FieldHeight\<rparr>"

text \<open>Lines 355-375: the cells of the arguments of one directive.\<close>

fun argCells :: "DirectiveNode \<Rightarrow> nat \<Rightarrow> ArgumentNode list \<Rightarrow> MxCell list" where
  "argCells directive i [] = []"
| "argCells directive i (arg # rest) =
     (let argValue = aName arg @ '': '' @ aType arg;
          argValue = (if aDefaultValue arg \<noteq> [] then argValue @ '' = '' @ aDefaultValue arg
                      else argValue)
      in \<lparr>mID = ''directive_'' @ dName directive @ ''_arg'' @ showNat i, mValue = argValue,
          mStyle = ArgumentStyle, mParent = ''directive_'' @ dName directive,
          mVertex = ''1'', mEdge = [], mSource = [], mTarget = [],
          mGeometry = Some \<lparr>gX = 0, gY = DirectiveHeight + real i * FieldHeight,
                             gWidth = DirectiveWidth, gHeight = FieldHeight, gRelative = []\<rparr>\<rparr>
         # argCells directive (Suc i) rest)"

text \<open>Lines 339-376: the cell of one directive, followed by the cells of its arguments.
  Its place is read from the \<open>DirectiveNode\<close>.\<close>

definition directiveCells :: "DirectiveNode \<Rightarrow> MxCell list" where
  "directiveCells directive =
     \<lparr>mID = ''directive_'' @ dName directive,
      mValue = ''@'' @ dName directive @ newline @ ''on '' @ joinStrings (dLocations directive) '', '',
      mStyle = DirectiveStyle, mParent = ''1'', mVertex = ''1'', mEdge = [], mSource = [],
      mTarget = [],
      mGeometry = Some \<lparr>gX = X (dPosition directive), gY = Y (dPosition directive),
                         gWidth = DirectiveWidth,
                         gHeight = DirectiveHeight + real (length (dArguments directive)) * FieldHeight,
                         gRelative = []\<rparr>\<rparr>
     # argCells directive 0 (dArguments directive)"

definition rootCells :: "MxCell list" where
  "rootCells =
     [\<lparr>mID = ''0'', mValue = [], mStyle = [], mParent = [], mVertex = [], mEdge = [],
       mSource = [], mTarget = [], mGeometry = None\<rparr>,
      \<lparr>mID = ''1'', mValue = [], mStyle = [], mParent = ''0'', mVertex = [], mEdge = [],
       mSource = [], mTarget = [], mGeometry = None\<rparr>]"

text \<open>
  Lines 223-380. The result is the \<open>MxFile\<close> handed to \<open>xml.MarshalIndent\<close> (the
  serialisation is the library's), together with the diagram and the random source as the
  function leaves them. The three calls of \<open>calculateLayout\<close> are at lines 224, 307 and
  337.
\<close>

definition generateDrawIOXML :: "Diagram \<Rightarrow> rng \<Rightarrow> (MxFile \<times> Diagram \<times> rng) option" where
  "generateDrawIOXML d r =
     do {
       (d1, r1) \<leftarrow> calculateLayout d r;
       let cells1 = rootCells @ concat (map classCells (Classes d1)) @ edgeCells 0 (Relations d1);
       let d2 = d1\<lparr>Classes := Classes d1 @ map scalarClass (Scalars d1)\<rparr>;
       (d3, r3) \<leftarrow> calculateLayout d2 r1;
       let cells2 = cells1 @ map scalarCell (Scalars d3);
       let d4 = d3\<lparr>Classes := Classes d3 @ map directiveClass (Directives d3)\<rparr>;
       (d5, r5) \<leftarrow> calculateLayout d4 r3;
       let cells3 = cells2 @ concat (map directiveCells (Directives d5));
       Some (\<lparr>diagramName = ''GraphQL Schema'', Cells = cells3\<rparr>, d5, r5)
     }"

section \<open>outputDiagram\<close>

text \<open>Lines 471-477: the lines of the arguments of one directive.\<close>

definition mermaidArgument :: "ArgumentNode \<Rightarrow> string" where
  "mermaidArgument arg =
     (let defaultValue = (if aDefaultValue arg \<noteq> [] then '' = '' @ aDefaultValue arg else [])
      in ''    +'' @ aName arg @ '': '' @ aType arg @ defaultValue @ newline)"

text \<open>Lines 469-479.\<close>

definition mermaidDirective :: "DirectiveNode \<Rightarrow> string" where
  "mermaidDirective directive =
     ''class '' @ dName directive @ '' {'' @ newline @ ''    <<directive>>'' @ newline
     @ concat (map mermaidArgument (dArguments directive))
     @ ''    +on '' @ joinStrings (dLocations directive) '', '' @ newline @ ''}'' @ newline"

text \<open>Lines 481-483.\<close>

definition mermaidScalar :: "ScalarNode \<Rightarrow> string" where
  "mermaidScalar scalar =
     ''class '' @ sName scalar @ '' {'' @ newline @ ''    <<scalar>>'' @ newline @ ''}'' @ newline"

text \<open>Lines 484-490.\<close>

definition mermaidField :: "Field \<Rightarrow> string" where
  "mermaidField field = ''    +'' @ fName field @ '' '' @ fType field @ newline"

definition mermaidClass :: "ClassNode \<Rightarrow> string" where
  "mermaidClass class =
     ''class '' @ cName class @ '' {'' @ newline
     @ concat (map mermaidField (cFields class)) @ ''}'' @ newline"

text \<open>Lines 492-498.\<close>

definition mermaidRelation :: "Relation \<Rightarrow> string" where
  "mermaidRelation relation =
     (let style = (if rEdgeType relation = ''directive'' then ''..>'' else ''-->'')
      in rFrom relation @ '' '' @ style @ '' '' @ rTo relation @ '' : '' @ rType relation @ newline)"

text \<open>Lines 467-498: everything the \<open>else\<close> branch prints, in order.\<close>

definition mermaidText :: "Diagram \<Rightarrow> string" where
  "mermaidText d =
     ''classDiagram'' @ newline
     @ concat (map mermaidDirective (Directives d))
     @ concat (map mermaidScalar (Scalars d))
     @ concat (map mermaidClass (Classes d))
     @ concat (map mermaidRelation (Relations d))"

text \<open>What the program writes to standard output: the serialised \<open>MxFile\<close>, or text.\<close>

datatype Printed = MarshalledXml MxFile | Text string

text \<open>Lines 462-500.\<close>

definition outputDiagram :: "Diagram \<Rightarrow> rng \<Rightarrow> (Printed \<times> Diagram \<times> rng) option" where
  "outputDiagram d r =
     (if format d = DrawIO
      then do { (output, d1, r1) \<leftarrow> generateDrawIOXML d r; Some (MarshalledXml output, d1, r1) }
      else Some (Text (mermaidText d), d, r))"

section \<open>processSchema and main\<close>

text \<open>
  \<open>processSchema\<close> reads the document that the parser of
  \<open>github.com/graphql-go/graphql\<close> returns. The types of that library are not part of
  the repository; they are modelled here by what the code reads of them: of a type its
  three shapes, of a definition its kind, its name, and the fields, description, locations
  and arguments the code visits. A definition of any other kind (an enum, an interface, a
  union) is \<open>OtherDefinition\<close>.
\<close>

datatype astType = Named string | ListType astType | NonNull astType | OtherType

datatype astValue =
  StringValue string | IntValue string | FloatValue string | BooleanValue bool
  | EnumValue string | OtherValue

record FieldDefinition =
  fdName :: string
  fdType :: astType

record InputValueDefinition =
  ivName :: string
  ivType :: astType
  ivDefaultValue :: "astValue option"

datatype astDefinition =
  ObjectDefinition string "FieldDefinition list"
  | ScalarDefinition string "string option"
  | DirectiveDefinition string "string option" "string list" "InputValueDefinition list"
  | InputObjectDefinition string
  | OtherDefinition

type_synonym Document = "astDefinition list"

text \<open>Lines 609-620.\<close>

fun getTypeString :: "astType \<Rightarrow> string" where
  "getTypeString (NonNull t) = getTypeString t @ ''!''"
| "getTypeString (ListType t) = ''['' @ getTypeString t @ '']''"
| "getTypeString (Named name) = name"
| "getTypeString OtherType = ''unknown''"

text \<open>Lines 622-633.\<close>

fun getBaseType :: "astType \<Rightarrow> string" where
  "getBaseType (NonNull t) = getBaseType t"
| "getBaseType (ListType t) = getBaseType t"
| "getBaseType (Named name) = name"
| "getBaseType OtherType = ''unknown''"

text \<open>Lines 382-385.\<close>

fun isNonNullType :: "astType \<Rightarrow> bool" where
  "isNonNullType (NonNull t) = True"
| "isNonNullType t = False"

text \<open>Lines 595-607.\<close>

fun isInputType :: "astType \<Rightarrow> Document \<Rightarrow> bool" where
  "isInputType t [] = False"
| "isInputType t (InputObjectDefinition name # rest) =
     (if name = getBaseType t then True else isInputType t rest)"
| "isInputType t (def # rest) = isInputType t rest"

text \<open>Lines 635-639.\<close>

definition isObjectType :: "astType \<Rightarrow> Document \<Rightarrow> bool" where
  "isObjectType t doc =
     (let baseType = getBaseType t
      in baseType \<noteq> ''String'' \<and> baseType \<noteq> ''Int'' \<and> baseType \<noteq> ''Float'' \<and>
         baseType \<noteq> ''Boolean'' \<and> baseType \<noteq> ''ID'' \<and> \<not> isInputType t doc)"

text \<open>Lines 648-655: the loop of \<open>isCustomScalar\<close>.\<close>

fun scalarDeclared :: "string \<Rightarrow> Document \<Rightarrow> bool" where
  "scalarDeclared baseType [] = False"
| "scalarDeclared baseType (ScalarDefinition name description # rest) =
     (if name = baseType then True else scalarDeclared baseType rest)"
| "scalarDeclared baseType (def # rest) = scalarDeclared baseType rest"

text \<open>Lines 641-656.\<close>

definition isCustomScalar :: "astType \<Rightarrow> Document \<Rightarrow> bool" where
  "isCustomScalar t doc =
     (let baseType = getBaseType t
      in if baseType = ''String'' \<or> baseType = ''Int'' \<or> baseType = ''Float'' \<or>
            baseType = ''Boolean'' \<or> baseType = ''ID''
         then False else scalarDeclared baseType doc)"

text \<open>Lines 658-663; a nil description is \<open>None\<close>.\<close>

fun getDescription :: "string option \<Rightarrow> string" where
  "getDescription (Some desc) = desc"
| "getDescription None = []"

text \<open>Lines 677-692. \<open>CHR 0x22\<close> is the double quote.\<close>

fun formatDefaultValue :: "astValue \<Rightarrow> string" where
  "formatDefaultValue (StringValue v) = [CHR 0x22] @ v @ [CHR 0x22]"
| "formatDefaultValue (IntValue v) = v"
| "formatDefaultValue (FloatValue v) = v"
| "formatDefaultValue (BooleanValue v) = (if v then ''true'' else ''false'')"
| "formatDefaultValue (EnumValue v) = v"
| "formatDefaultValue OtherValue = []"

text \<open>Lines 397-401.\<close>

definition classField :: "FieldDefinition \<Rightarrow> Field" where
  "classField field =
     \<lparr>fName = fdName field, fType = getTypeString (fdType field),
      fIsRequired = isNonNullType (fdType field)\<rparr>"

text \<open>Lines 433-441.\<close>

definition directiveArgument :: "InputValueDefinition \<Rightarrow> ArgumentNode" where
  "directiveArgument arg =
     \<lparr>aName = ivName arg, aType = getTypeString (ivType arg),
      aIsRequired = isNonNullType (ivType arg),
      aDefaultValue = (case ivDefaultValue arg of None \<Rightarrow> [] | Some v \<Rightarrow> formatDefaultValue v)\<rparr>"

text \<open>Lines 391-404 of \<open>processSchema\<close>: the node built for an object definition. Only
  \<open>ID\<close>, \<open>Name\<close> and \<open>Fields\<close> are set; position, width and height keep Go's zero
  value.\<close>

definition newClass :: "string \<Rightarrow> Field list \<Rightarrow> ClassNode" where
  "newClass name fs =
     \<lparr>cID = ''c'' @ name, cName = name, cFields = fs,
      cPosition = \<lparr>X = 0, Y = 0\<rparr>, cWidth = 0, cHeight = 0\<rparr>"

text \<open>Lines 416-420 of \<open>processSchema\<close>: the node built for a scalar definition.\<close>

definition newScalar :: "string \<Rightarrow> string \<Rightarrow> ScalarNode" where
  "newScalar name description =
     \<lparr>sName = name, sDescription = description, sPosition = \<lparr>X = 0, Y = 0\<rparr>\<rparr>"

text \<open>Lines 422-457 of \<open>processSchema\<close>: the node built for a directive definition.\<close>

definition newDirective :: "string \<Rightarrow> string \<Rightarrow> ArgumentNode list \<Rightarrow> string list \<Rightarrow> DirectiveNode" where
  "newDirective name description args locs =
     \<lparr>dName = name, dDescription = description, dArguments = args, dLocations = locs,
      dPosition = \<lparr>X = 0, Y = 0\<rparr>\<rparr>"

text \<open>
  Lines 389-458: the body of the loop, one case per kind of definition. The relations of
  an object type or of a directive are appended in the order of its fields or arguments.
\<close>

fun processDefinition :: "Document \<Rightarrow> astDefinition \<Rightarrow> Diagram \<Rightarrow> Diagram" where
  "processDefinition doc (ObjectDefinition name fs) diagram =
     (let class = newClass name (map classField fs);
          diagram1 = diagram\<lparr>Classes := Classes diagram @ [class]\<rparr>;
          used = filter (\<lambda>field. isObjectType (fdType field) doc \<or> isInputType (fdType field) doc) fs
      in diagram1\<lparr>Relations := Relations diagram1
            @ map (\<lambda>field. \<lparr>rFrom = name, rTo = getBaseType (fdType field),
                              rType = ''uses'', rEdgeType = []\<rparr>) used\<rparr>)"
| "processDefinition doc (ScalarDefinition name description) diagram =
     diagram\<lparr>Scalars := Scalars diagram @ [newScalar name (getDescription description)]\<rparr>"
| "processDefinition doc (DirectiveDefinition name description locs args) diagram =
     (let directive = newDirective name (getDescription description) (map directiveArgument args) locs;
          used = filter (\<lambda>arg. isObjectType (ivType arg) doc \<or> isInputType (ivType arg) doc
                              \<or> isCustomScalar (ivType arg) doc) args;
          diagram1 = diagram\<lparr>Relations := Relations diagram
            @ map (\<lambda>arg. \<lparr>rFrom = ''@'' @ name, rTo = getBaseType (ivType arg),
                            rType = ''uses'', rEdgeType = ''directive''\<rparr>) used\<rparr>
      in diagram1\<lparr>Directives := Directives diagram1 @ [directive]\<rparr>)"
| "processDefinition doc def diagram = diagram"

text \<open>Lines 387-460.\<close>

fun processDefinitions :: "Document \<Rightarrow> astDefinition list \<Rightarrow> Diagram \<Rightarrow> Diagram" where
  "processDefinitions doc [] diagram = diagram"
| "processDefinitions doc (def # rest) diagram =
     processDefinitions doc rest (processDefinition doc def diagram)"

definition processSchema :: "Document \<Rightarrow> Diagram \<Rightarrow> Diagram" where
  "processSchema doc diagram = processDefinitions doc doc diagram"

text \<open>Lines 522-535 of \<open>main\<close>: the diagram before the schema is processed, for a
  value of the \<open>-format\<close> flag.\<close>

definition startDiagram :: "string \<Rightarrow> Diagram" where
  "startDiagram formatFlag =
     \<lparr>Classes = [], Relations = [], Scalars = [], Directives = [],
      format = (if formatFlag = ''drawio'' then DrawIO else Mermaid),
      maxWidth = 1920, maxHeight = 1080\<rparr>"

text \<open>Lines 537-541 of \<open>main\<close>, from the parsed document on. Reading and parsing the
  schema file is left out.\<close>

definition mainProgram :: "string \<Rightarrow> Document \<Rightarrow> rng \<Rightarrow> (Printed \<times> Diagram \<times> rng) option" where
  "mainProgram formatFlag doc r = outputDiagram (processSchema doc (startDiagram formatFlag)) r"

section \<open>binary64 arithmetic\<close>

text \<open>
  Go's \<open>float64\<close> is the binary64 format of IEEE 754. A value is a NaN, one of the two
  infinities, or a finite number \<open>m * 2 ^ e\<close> with an integer \<open>m\<close> of at most 53 binary
  digits and \<open>e\<close> from -1074 on, below \<open>2 ^ 1024\<close> in magnitude; \<open>Fin m e\<close> is that
  number. A finite value is kept in one form, \<open>m\<close> odd, or \<open>m = 0\<close> and \<open>e = 0\<close>, so
  that equal numbers are equal terms. The sign of a zero is not represented: the two
  zeros are the same coordinate, and they differ only as divisors.

  Every operation computes its exact result and rounds it once: to the nearest value of
  the format, a tie to the one with the even significand; a rounded magnitude of
  \<open>2 ^ 1024\<close> or more is an infinity; below \<open>2 ^ - 1022\<close> the values are
  \<open>2 ^ - 1074\<close> apart (subnormal numbers). Each operation of the source is rounded on
  its own; no multiplication is fused with an addition.
\<close>

datatype float64 = Fin int int | PInf | NInf | NaN

text \<open>The number of binary digits of a positive integer.\<close>

function bitlen :: "int \<Rightarrow> int" where
  "bitlen n = (if n \<le> 0 then 0 else 1 + bitlen (n div 2))"
  by pat_completeness auto
termination by (relation "measure nat") auto

text \<open>The form with an odd significand.\<close>

function strip :: "int \<Rightarrow> int \<Rightarrow> int \<times> int" where
  "strip m e = (if m = 0 then (0, 0) else if even m then strip (m div 2) (e + 1) else (m, e))"
  by pat_completeness auto
termination by (relation "measure (\<lambda>(m, e). nat \<bar>m\<bar>)") auto

text \<open>\<open>n\<close> without its \<open>s\<close> lowest digits, and whether a one was among them (or
  \<open>sticky\<close> said so before).\<close>

function shiftRight :: "int \<Rightarrow> int \<Rightarrow> bool \<Rightarrow> int \<times> bool" where
  "shiftRight s n sticky =
     (if s \<le> 0 then (n, sticky) else shiftRight (s - 1) (n div 2) (sticky \<or> odd n))"
  by pat_completeness auto
termination by (relation "measure (\<lambda>(s, n, sticky). nat s)") auto

text \<open>The integer square root with its remainder: \<open>sqrtRem n = (r, d)\<close> with
  \<open>n = r * r + d\<close> and \<open>0 \<le> d \<le> 2 * r\<close>, two digits of \<open>n\<close> at a time.\<close>

function sqrtRem :: "int \<Rightarrow> int \<times> int" where
  "sqrtRem n =
     (if n \<le> 0 then (0, 0)
      else let (r, d) = sqrtRem (n div 4); d1 = 4 * d + n mod 4; t = 4 * r + 1
           in if t \<le> d1 then (2 * r + 1, d1 - t) else (2 * r, d1))"
  by pat_completeness auto
termination by (relation "measure nat") auto

declare bitlen.simps [simp del] strip.simps [simp del] shiftRight.simps [simp del]
  sqrtRem.simps [simp del]

text \<open>The value \<open>q * 2 ^ t\<close> with the sign \<open>neg\<close>, for a \<open>q\<close> of at most 53 digits
  (or \<open>2 ^ 53\<close>): an infinity when it is \<open>2 ^ 1024\<close> or more.\<close>

definition pack :: "bool \<Rightarrow> int \<Rightarrow> int \<Rightarrow> float64" where
  "pack neg q t =
     (if q = 0 then Fin 0 0
      else if 1024 < bitlen q + t then (if neg then NInf else PInf)
      else case strip q t of (m, e) \<Rightarrow> Fin (if neg then - m else m) e)"

text \<open>
  Rounding. The exact magnitude is \<open>n * 2 ^ e\<close>, or, when \<open>sticky\<close> is set, a number
  strictly between \<open>n * 2 ^ e\<close> and \<open>(n + 1) * 2 ^ e\<close> (a quotient or a root that did not
  come out even; \<open>n\<close> then has at least 55 digits). \<open>t\<close> is the exponent of the last
  digit that is kept. \<open>q1\<close> is the magnitude down to one digit below \<open>t\<close>: that digit
  tells whether the rest is a half or more, \<open>lower\<close> whether anything follows it.
\<close>

definition round64 :: "bool \<Rightarrow> int \<Rightarrow> int \<Rightarrow> bool \<Rightarrow> float64" where
  "round64 neg n e sticky =
     (let t = max (e + bitlen n - 53) (- 1074) in
      if t \<le> e then pack neg n e
      else let (q1, lower) = shiftRight (t - e - 1) n sticky;
               q = q1 div 2;
               up = (odd q1 \<and> (lower \<or> odd q))
           in pack neg (if up then q + 1 else q) t)"

text \<open>The conversion \<open>float64(n)\<close> of an integer, and an integer literal.\<close>

definition ofInt :: "int \<Rightarrow> float64" where
  "ofInt n = round64 (n < 0) \<bar>n\<bar> 0 False"


definition addFin :: "int \<Rightarrow> int \<Rightarrow> int \<Rightarrow> int \<Rightarrow> float64" where
  "addFin m1 e1 m2 e2 =
     (if m2 = 0 then round64 (m1 < 0) \<bar>m1\<bar> e1 False
      else if m1 = 0 then round64 (m2 < 0) \<bar>m2\<bar> e2 False
      else let e = min e1 e2; s = m1 * 2 ^ nat (e1 - e) + m2 * 2 ^ nat (e2 - e)
           in round64 (s < 0) \<bar>s\<bar> e False)"

text \<open>\<open>x + y\<close>. A NaN operand gives a NaN, and so do two infinities of opposite sign.\<close>

fun fadd64 :: "float64 \<Rightarrow> float64 \<Rightarrow> float64" where
  "fadd64 NaN y = NaN"
| "fadd64 x NaN = NaN"
| "fadd64 PInf NInf = NaN"
| "fadd64 NInf PInf = NaN"
| "fadd64 PInf y = PInf"
| "fadd64 NInf y = NInf"
| "fadd64 x PInf = PInf"
| "fadd64 x NInf = NInf"
| "fadd64 (Fin m1 e1) (Fin m2 e2) = addFin m1 e1 m2 e2"


definition infinity :: "bool \<Rightarrow> float64" where
  "infinity neg = (if neg then NInf else PInf)"

fun isneg :: "float64 \<Rightarrow> bool" where
  "isneg (Fin m e) = (m < 0)"
| "isneg NInf = True"
| "isneg x = False"

text \<open>\<open>x * y\<close>. Zero times an infinity is a NaN.\<close>

fun fmul64 :: "float64 \<Rightarrow> float64 \<Rightarrow> float64" where
  "fmul64 NaN y = NaN"
| "fmul64 x NaN = NaN"
| "fmul64 (Fin m1 e1) (Fin m2 e2) =
     round64 ((m1 < 0) \<noteq> (m2 < 0)) \<bar>m1 * m2\<bar> (e1 + e2) False"
| "fmul64 (Fin m e) y = (if m = 0 then NaN else infinity ((m < 0) \<noteq> isneg y))"
| "fmul64 x (Fin m e) = (if m = 0 then NaN else infinity (isneg x \<noteq> (m < 0)))"
| "fmul64 x y = infinity (isneg x \<noteq> isneg y)"

text \<open>The quotient of two finite values: the dividend is scaled so that the integer
  quotient has at least 56 digits; a remainder sets \<open>sticky\<close>.\<close>

definition divFin :: "int \<Rightarrow> int \<Rightarrow> int \<Rightarrow> int \<Rightarrow> float64" where
  "divFin m1 e1 m2 e2 =
     (if m2 = 0 then (if m1 = 0 then NaN else infinity (m1 < 0))
      else let s = max 0 (bitlen \<bar>m2\<bar> + 56 - bitlen \<bar>m1\<bar>); n = \<bar>m1\<bar> * 2 ^ nat s
           in round64 ((m1 < 0) \<noteq> (m2 < 0)) (n div \<bar>m2\<bar>) (e1 - e2 - s) (n mod \<bar>m2\<bar> \<noteq> 0))"

text \<open>\<open>x / y\<close>. No division panics: a zero divisor gives an infinity, or a NaN when the
  dividend is zero too; an infinity divided by an infinity is a NaN; a finite value
  divided by an infinity is zero.\<close>

fun fdiv64 :: "float64 \<Rightarrow> float64 \<Rightarrow> float64" where
  "fdiv64 NaN y = NaN"
| "fdiv64 x NaN = NaN"
| "fdiv64 (Fin m1 e1) (Fin m2 e2) = divFin m1 e1 m2 e2"
| "fdiv64 (Fin m e) y = Fin 0 0"
| "fdiv64 x (Fin m e) = infinity (isneg x \<noteq> (m < 0))"
| "fdiv64 x y = NaN"

text \<open>The root of a finite value: the radicand is scaled by an even power of two so that
  the integer root has at least 55 digits.\<close>

definition sqrtFin :: "int \<Rightarrow> int \<Rightarrow> float64" where
  "sqrtFin m e =
     (if m < 0 then NaN
      else let s0 = max 0 (110 - bitlen m); s = (if even (e - s0) then s0 else s0 + 1);
               (q, d) = sqrtRem (m * 2 ^ nat s)
           in round64 False q ((e - s) div 2) (d \<noteq> 0))"

text \<open>\<open>math.Sqrt\<close>: a NaN for a negative argument and for a NaN.\<close>

fun fsqrt64 :: "float64 \<Rightarrow> float64" where
  "fsqrt64 (Fin m e) = sqrtFin m e"
| "fsqrt64 PInf = PInf"
| "fsqrt64 x = NaN"

text \<open>\<open>x <= y\<close>; false when an operand is a NaN.\<close>

fun fle64 :: "float64 \<Rightarrow> float64 \<Rightarrow> bool" where
  "fle64 (Fin m1 e1) (Fin m2 e2) =
     (let e = min e1 e2 in m1 * 2 ^ nat (e1 - e) \<le> m2 * 2 ^ nat (e2 - e))"
| "fle64 NaN y = False"
| "fle64 x NaN = False"
| "fle64 NInf y = True"
| "fle64 x PInf = True"
| "fle64 PInf y = False"
| "fle64 x NInf = False"

text \<open>\<open>math.Max\<close>: the positive infinity when an operand is one, else a NaN when an
  operand is one, else the larger operand.\<close>

definition fmax64 :: "float64 \<Rightarrow> float64 \<Rightarrow> float64" where
  "fmax64 x y =
     (if x = PInf \<or> y = PInf then PInf
      else if x = NaN \<or> y = NaN then NaN
      else if fle64 x y then y else x)"

text \<open>The literal \<open>0.1\<close>: the binary64 value nearest to one tenth.\<close>

definition tenth :: float64 where
  "tenth = fdiv64 (ofInt 1) (ofInt 10)"

section \<open>calculateLayout over binary64\<close>




















section \<open>Notions used in the statements\<close>

text \<open>A node with its position blanked: two nodes agree on it exactly when they agree on
  identity, name, fields, width and height.\<close>

definition erasePos :: "ClassNode \<Rightarrow> ClassNode" where
  "erasePos c = c\<lparr>cPosition := \<lparr>X = 0, Y = 0\<rparr>\<rparr>"

text \<open>A relation resolves in a node list when both of its endpoint names are found.\<close>

definition resolves :: "ClassNode list \<Rightarrow> Relation \<Rightarrow> bool" where
  "resolves ns rel = (findNode (rFrom rel) ns \<noteq> None \<and> findNode (rTo rel) ns \<noteq> None)"

text \<open>The number of values one call of \<open>calculateLayout\<close> takes from the random source.\<close>

definition draws :: "Diagram \<Rightarrow> nat" where
  "draws d = 2 * (length (Scalars d) + length (Directives d))"

text \<open>The Euclidean distance of two positions, and the distance with the floor of 0.1 that
  the specification names in both passes.\<close>

definition euclidean :: "Position \<Rightarrow> Position \<Rightarrow> real" where
  "euclidean p q = sqrt ((X p - X q)\<^sup>2 + (Y p - Y q)\<^sup>2)"

definition flooredDistance :: "Position \<Rightarrow> Position \<Rightarrow> real" where
  "flooredDistance p q = max 0.1 (euclidean p q)"

text \<open>The zero value of \<open>Position\<close>.\<close>

definition origin :: Position where
  "origin = \<lparr>X = 0, Y = 0\<rparr>"

text \<open>A node moved by a vector.\<close>

definition moveBy :: "ClassNode \<Rightarrow> real \<Rightarrow> real \<Rightarrow> ClassNode" where
  "moveBy c ax ay = c\<lparr>cPosition := \<lparr>X = X (cPosition c) + ax, Y = Y (cPosition c) + ay\<rparr>\<rparr>"

text \<open>A loop over a list whose body may leave the reals: it stops at the first body that
  does.\<close>

fun forEach :: "('a \<Rightarrow> 's \<Rightarrow> 's option) \<Rightarrow> 'a list \<Rightarrow> 's \<Rightarrow> 's option" where
  "forEach f [] s = Some s"
| "forEach f (x # xs) s = (case f x s of None \<Rightarrow> None | Some s1 \<Rightarrow> forEach f xs s1)"

text \<open>All ordered pairs of distinct indices below \<open>n\<close>, the first index outermost.\<close>

definition orderedPairs :: "nat \<Rightarrow> (nat \<times> nat) list" where
  "orderedPairs n = concat (map (\<lambda>i. map (\<lambda>j. (i, j)) (filter (\<lambda>j. i \<noteq> j) [0..<n])) [0..<n])"

text \<open>The repulsion step for one ordered pair of indices: the first node is pushed away
  from the second.\<close>

definition repelPair :: "real option \<Rightarrow> nat \<times> nat \<Rightarrow> ClassNode list \<Rightarrow> ClassNode list option" where
  "repelPair k ij ns = map_option (\<lambda>v. ns[fst ij := v]) (repel k (ns ! fst ij) (ns ! snd ij))"

text \<open>The repulsion step in the words of the specification: to the position of \<open>v\<close> is
  added the unit vector of (v.pos - u.pos), scaled by the force \<open>k\<^sup>2 / d\<close>, where \<open>d\<close> is
  the floored distance.\<close>

definition specRepel :: "real \<Rightarrow> ClassNode \<Rightarrow> ClassNode \<Rightarrow> ClassNode" where
  "specRepel kv v u =
     (let e = euclidean (cPosition v) (cPosition u);
          d = flooredDistance (cPosition v) (cPosition u)
      in moveBy v ((X (cPosition v) - X (cPosition u)) / e * (kv * kv / d))
                  ((Y (cPosition v) - Y (cPosition u)) / e * (kv * kv / d)))"

text \<open>A diagram with the position of every class, scalar and directive blanked.\<close>

definition erasePositions :: "Diagram \<Rightarrow> Diagram" where
  "erasePositions d =
     d\<lparr>Classes := map (\<lambda>c. c\<lparr>cPosition := \<lparr>X = 0, Y = 0\<rparr>\<rparr>) (Classes d),
       Scalars := map (\<lambda>s. s\<lparr>sPosition := \<lparr>X = 0, Y = 0\<rparr>\<rparr>) (Scalars d),
       Directives := map (\<lambda>x. x\<lparr>dPosition := \<lparr>X = 0, Y = 0\<rparr>\<rparr>) (Directives d)\<rparr>"

text \<open>The result of \<open>generateDrawIOXML\<close>, or of \<open>outputDiagram\<close>, without the
  random source it leaves behind.\<close>

definition stripRng :: "('a \<times> Diagram \<times> rng) option \<Rightarrow> ('a \<times> Diagram) option" where
  "stripRng res = map_option (\<lambda>(f, d, r). (f, d)) res"


text \<open>A finite binary64 value in its one form: at most 53 digits, the exponent from
  -1074 on, the magnitude below \<open>2 ^ 1024\<close>.\<close>

fun finite64 :: "float64 \<Rightarrow> bool" where
  "finite64 (Fin m e) =
     (m = 0 \<and> e = 0 \<or> odd m \<and> bitlen \<bar>m\<bar> \<le> 53 \<and> - 1074 \<le> e \<and> bitlen \<bar>m\<bar> + e \<le> 1024)"
| "finite64 x = False"





text \<open>The number that a finite binary64 value stands for.\<close>

fun valof :: "float64 \<Rightarrow> real" where
  "valof (Fin m e) = (if 0 \<le> e then of_int m * 2 ^ nat e else of_int m / 2 ^ nat (- e))"
| "valof x = 0"

section \<open>Example inputs\<close>

text \<open>Three schema documents: two object types; an object type, a scalar, an enum and a
  directive; a single scalar.\<close>

definition twoTypesSchema :: Document where
  "twoTypesSchema =
     [ObjectDefinition ''A'' [\<lparr>fdName = ''b'', fdType = Named ''B''\<rparr>],
      ObjectDefinition ''B'' [\<lparr>fdName = ''x'', fdType = Named ''Int''\<rparr>]]"

definition mixedSchema :: Document where
  "mixedSchema =
     [ObjectDefinition ''A'' [\<lparr>fdName = ''d'', fdType = Named ''Date''\<rparr>,
                              \<lparr>fdName = ''s'', fdType = Named ''Status''\<rparr>],
      ScalarDefinition ''Date'' None,
      OtherDefinition,
      DirectiveDefinition ''auth'' None [''FIELD_DEFINITION'']
        [\<lparr>ivName = ''since'', ivType = Named ''Date'', ivDefaultValue = None\<rparr>]]"

definition dateSchema :: Document where
  "dateSchema = [ScalarDefinition ''Date'' None]"

text \<open>A random source that returns one half at every call.\<close>

definition halves :: rng where
  "halves = sconst (1 / 2)"

definition usesRelation :: "string \<Rightarrow> string \<Rightarrow> Relation" where
  "usesRelation a b = \<lparr>rFrom = a, rTo = b, rType = ''uses'', rEdgeType = []\<rparr>"

text \<open>A diagram without any node, on the canvas of \<open>main\<close>.\<close>

definition emptyDiagram :: Diagram where
  "emptyDiagram =
     \<lparr>Classes = [], Relations = [usesRelation ''A'' ''B''], Scalars = [], Directives = [],
      format = DrawIO, maxWidth = 1920, maxHeight = 1080\<rparr>"

text \<open>What \<open>processSchema\<close> builds for a schema of two object types, \<open>A\<close> with a
  field of type \<open>B\<close> and \<open>B\<close> with a field of type \<open>Int\<close>.\<close>

definition twoClasses :: Diagram where
  "twoClasses =
     \<lparr>Classes = [newClass ''A'' [\<lparr>fName = ''b'', fType = ''B'', fIsRequired = False\<rparr>],
                 newClass ''B'' [\<lparr>fName = ''x'', fType = ''Int'', fIsRequired = False\<rparr>]],
      Relations = [usesRelation ''A'' ''B''], Scalars = [], Directives = [],
      format = DrawIO, maxWidth = 1920, maxHeight = 1080\<rparr>"

text \<open>Two nodes that start at the same coordinate, and no relation.\<close>

definition twins :: Diagram where
  "twins =
     \<lparr>Classes = [(newClass ''A'' [])\<lparr>cPosition := \<lparr>X = 5, Y = 7\<rparr>\<rparr>,
                 (newClass ''B'' [])\<lparr>cPosition := \<lparr>X = 5, Y = 7\<rparr>\<rparr>],
      Relations = [], Scalars = [], Directives = [],
      format = DrawIO, maxWidth = 1920, maxHeight = 1080\<rparr>"

text \<open>What \<open>processSchema\<close> builds for a schema with an object type \<open>A\<close> whose fields
  have the scalar type \<open>Date\<close> and the enum type \<open>Status\<close> (an enum is no node, so the
  second relation dangles), and a directive \<open>auth\<close> with an argument of type \<open>Date\<close>.\<close>

definition mixed :: Diagram where
  "mixed =
     \<lparr>Classes = [newClass ''A'' [\<lparr>fName = ''d'', fType = ''Date'', fIsRequired = False\<rparr>,
                                 \<lparr>fName = ''s'', fType = ''Status'', fIsRequired = False\<rparr>]],
      Relations = [usesRelation ''A'' ''Date'', usesRelation ''A'' ''Status'',
                   \<lparr>rFrom = ''@auth'', rTo = ''Date'', rType = ''uses'', rEdgeType = ''directive''\<rparr>],
      Scalars = [newScalar ''Date'' []],
      Directives = [newDirective ''auth'' []
                      [\<lparr>aName = ''since'', aType = ''Date'', aIsRequired = False, aDefaultValue = []\<rparr>]
                      [''FIELD_DEFINITION'']],
      format = DrawIO, maxWidth = 1920, maxHeight = 1080\<rparr>"

text \<open>A class node without fields at a given place.\<close>

definition nodeAt :: "string \<Rightarrow> real \<Rightarrow> real \<Rightarrow> ClassNode" where
  "nodeAt name x y = (newClass name [])\<lparr>cPosition := \<lparr>X = x, Y = y\<rparr>\<rparr>"

text \<open>Two nodes three units apart on a horizontal line.\<close>

definition pairAB :: "ClassNode list" where
  "pairAB = [nodeAt ''A'' 0 0, nodeAt ''B'' 3 0]"

text \<open>The diagram \<open>mixed\<close> with the mermaid format selected.\<close>

definition mermaidExample :: Diagram where
  "mermaidExample = mixed\<lparr>format := Mermaid\<rparr>"

text \<open>A random source that agrees with \<open>halves\<close> on the first twelve values only.\<close>

definition halvesThenZeros :: rng where
  "halvesThenZeros = shift (replicate 12 (1 / 2)) (sconst 0)"

text \<open>What \<open>processSchema\<close> builds for a schema that declares the scalar \<open>Date\<close> and
  nothing else, and the working node of that scalar when the random source is
  \<open>halves\<close>.\<close>

definition oneScalar :: Diagram where
  "oneScalar =
     \<lparr>Classes = [], Relations = [], Scalars = [newScalar ''Date'' []], Directives = [],
      format = DrawIO, maxWidth = 1920, maxHeight = 1080\<rparr>"

definition dateNode :: ClassNode where
  "dateNode = \<lparr>cID = ''scalar_Date'', cName = ''Date'', cFields = [],
               cPosition = \<lparr>X = 960, Y = 540\<rparr>, cWidth = ScalarWidth, cHeight = ScalarHeight\<rparr>"

text \<open>The node lists of two of the example diagrams at the start of the simulation.\<close>

definition mixedNodes :: "ClassNode list" where
  "mixedNodes = fst (initialNodes mixed halves)"

definition twinNodes :: "ClassNode list" where
  "twinNodes = Classes twins"







text \<open>The value of \<open>k\<close> for \<open>mixed\<close>, about 831.38.\<close>

definition mixedK :: float64 where
  "mixedK = Fin 228529200338495 (- 38)"

section \<open>Lemmas\<close>

subsection \<open>The distance is never a zero divisor\<close>

lemma floor_nz: "max (0.1::real) x \<noteq> 0"
proof -
  have "(0.1::real) \<le> max 0.1 x" by (rule max.cobounded1)
  then show ?thesis by linarith
qed

lemma fdiv_floor: "fdiv a (max 0.1 x) = Some (a / max 0.1 x)"
  by (simp add: fdiv_def floor_nz)

lemma repel_Some: "repel (Some kv) v u \<noteq> None"
  by (simp add: repel_def Let_def fdiv_floor)

subsection \<open>Only positions change\<close>

lemma repel_frame: "repel k v u = Some v' \<Longrightarrow> erasePos v' = erasePos v"
  by (auto simp: repel_def Let_def erasePos_def fdiv_floor split: bind_splits)

lemma map_update_same: "f v = f (ns ! i) \<Longrightarrow> map f (ns[i := v]) = map f ns"
  by (cases "i < length ns") (simp_all add: map_update list_update_same_conv list_update_beyond)

lemma repelInner_length: "repelInner k i js ns = Some ns' \<Longrightarrow> length ns' = length ns"
  by (induction k i js ns arbitrary: ns' rule: repelInner.induct) (auto split: bind_splits if_splits)

lemma repelInner_frame: "repelInner k i js ns = Some ns' \<Longrightarrow> map erasePos ns' = map erasePos ns"
proof (induction k i js ns arbitrary: ns' rule: repelInner.induct)
  case (1 k i ns)
  then show ?case by simp
next
  case (2 k i j js ns)
  show ?case
  proof (cases "i \<noteq> j")
    case True
    with 2 obtain v where v: "repel k (ns ! i) (ns ! j) = Some v" and r: "repelInner k i js (ns[i := v]) = Some ns'"
      by (auto split: bind_splits)
    from 2 True v r have "map erasePos ns' = map erasePos (ns[i := v])" by blast
    also have "\<dots> = map erasePos ns"
      using repel_frame[OF v] by (rule map_update_same)
    finally show ?thesis .
  next
    case False
    with 2 show ?thesis by auto
  qed
qed

lemma repelOuter_frame: "repelOuter k is ns = Some ns' \<Longrightarrow> map erasePos ns' = map erasePos ns"
proof (induction k "is" ns arbitrary: ns' rule: repelOuter.induct)
  case (1 k ns)
  then show ?case by simp
next
  case (2 k i "is" ns)
  then obtain ns1 where a: "repelInner k i [0..<length ns] ns = Some ns1" and b: "repelOuter k is ns1 = Some ns'"
    by (auto split: bind_splits)
  from 2(1)[OF a b] repelInner_frame[OF a] show ?case by simp
qed

lemma repulsionPass_frame: "repulsionPass k ns = Some ns' \<Longrightarrow> map erasePos ns' = map erasePos ns"
  unfolding repulsionPass_def by (rule repelOuter_frame)

lemma attract_frame: "attract k rel ns = Some ns' \<Longrightarrow> map erasePos ns' = map erasePos ns"
proof -
  assume a: "attract k rel ns = Some ns'"
  have e: "\<And>c p. erasePos (c\<lparr>cPosition := p\<rparr>) = erasePos c" by (simp add: erasePos_def)
  show ?thesis
  proof (cases "findNode (rFrom rel) ns")
    case None
    with a show ?thesis by (simp add: attract_def)
  next
    case (Some f)
    note f = this
    show ?thesis
    proof (cases "findNode (rTo rel) ns")
      case None
      with a f show ?thesis by (simp add: attract_def)
    next
      case (Some t)
      with a f show ?thesis
        by (auto simp: attract_def Let_def fdiv_floor e map_update_same split: bind_splits)
    qed
  qed
qed

lemma attractionPass_frame: "attractionPass k rels ns = Some ns' \<Longrightarrow> map erasePos ns' = map erasePos ns"
proof (induction k rels ns arbitrary: ns' rule: attractionPass.induct)
  case (1 k ns)
  then show ?case by simp
next
  case (2 k rel rels ns)
  then obtain ns1 where a: "attract k rel ns = Some ns1" and b: "attractionPass k rels ns1 = Some ns'"
    by (auto split: bind_splits)
  from 2(1)[OF a b] attract_frame[OF a] show ?case by simp
qed

lemma simulate_frame: "simulate n k rels ns = Some ns' \<Longrightarrow> map erasePos ns' = map erasePos ns"
proof (induction n arbitrary: ns)
  case 0
  then show ?case by simp
next
  case (Suc n)
  then obtain ns1 ns2 where a: "repulsionPass k ns = Some ns1" and b: "attractionPass k rels ns1 = Some ns2"
    and c: "simulate n k rels ns2 = Some ns'"
    by (auto split: bind_splits)
  from Suc.IH[OF c] attractionPass_frame[OF b] repulsionPass_frame[OF a] show ?case by simp
qed

subsection \<open>An empty node list\<close>

lemma findNode_Nil: "findNode nm [] = None"
  by (simp add: findNode_def)

lemma attractionPass_Nil: "attractionPass k rels [] = Some []"
  by (induction rels) (simp_all add: attract_def findNode_Nil)

lemma simulate_Nil: "simulate n k rels [] = Some []"
  by (induction n) (simp_all add: repulsionPass_def attractionPass_Nil)

subsection \<open>Relations that do not resolve\<close>

text \<open>The names of the nodes never change, so a relation that does not resolve at the start
  does not resolve in any round.\<close>

lemma attract_dangling: "\<not> resolves ns rel \<Longrightarrow> attract k rel ns = Some ns"
  by (auto simp: resolves_def attract_def split: option.splits)

lemma scanName_names:
  "map cName ns = map cName ns' \<Longrightarrow> scanName nm ns i found = scanName nm ns' i found"
proof (induction ns arbitrary: ns' i found)
  case Nil
  then show ?case by simp
next
  case (Cons a ns)
  then obtain b ms where ns': "ns' = b # ms" and ab: "cName a = cName b" and r: "map cName ns = map cName ms"
    by (cases ns') auto
  show ?case using Cons.IH[OF r] by (simp add: ns' ab)
qed

lemma cName_erasePos: "cName (erasePos c) = cName c"
  by (simp add: erasePos_def)

lemma names_of_frame: "map erasePos ns' = map erasePos ns \<Longrightarrow> map cName ns' = map cName ns"
proof -
  assume a: "map erasePos ns' = map erasePos ns"
  have "map cName ns' = map cName (map erasePos ns')" by (simp add: cName_erasePos)
  also have "\<dots> = map cName (map erasePos ns)" by (simp only: a)
  also have "\<dots> = map cName ns" by (simp add: cName_erasePos)
  finally show ?thesis .
qed

lemma resolves_names: "map cName ns = map cName ns' \<Longrightarrow> resolves ns rel = resolves ns' rel"
  by (simp add: resolves_def findNode_def scanName_names[of ns ns'])

lemma attractionPass_filter:
  "map cName ns0 = map cName ns \<Longrightarrow>
   attractionPass k (filter (resolves ns0) rels) ns = attractionPass k rels ns"
proof (induction rels arbitrary: ns)
  case Nil
  then show ?case by simp
next
  case (Cons rel rels)
  have eq: "resolves ns0 rel = resolves ns rel" using Cons.prems by (rule resolves_names)
  show ?case
  proof (cases "resolves ns rel")
    case False
    then show ?thesis using Cons eq by (simp add: attract_dangling)
  next
    case True
    show ?thesis
    proof (cases "attract k rel ns")
      case None
      then show ?thesis using True eq by simp
    next
      case (Some ns1)
      have "map cName ns1 = map cName ns" using attract_frame[OF Some] by (rule names_of_frame)
      with Cons.prems have "map cName ns0 = map cName ns1" by simp
      from Cons.IH[OF this] show ?thesis using True eq Some by simp
    qed
  qed
qed

lemma simulate_filter:
  "map cName ns0 = map cName ns \<Longrightarrow>
   simulate n k (filter (resolves ns0) rels) ns = simulate n k rels ns"
proof (induction n arbitrary: ns)
  case 0
  then show ?case by simp
next
  case (Suc n)
  show ?case
  proof (cases "repulsionPass k ns")
    case None
    then show ?thesis by simp
  next
    case (Some ns1)
    have n1: "map cName ns0 = map cName ns1"
      using names_of_frame[OF repulsionPass_frame[OF Some]] Suc.prems by simp
    show ?thesis
    proof (cases "attractionPass k rels ns1")
      case None
      then show ?thesis using Some attractionPass_filter[OF n1, of k rels] by simp
    next
      case (Some ns2)
      have "map cName ns0 = map cName ns2"
        using names_of_frame[OF attractionPass_frame[OF Some]] n1 by simp
      from Suc.IH[OF this] show ?thesis
        using \<open>repulsionPass k ns = Some ns1\<close> Some attractionPass_filter[OF n1, of k rels] by simp
    qed
  qed
qed

subsection \<open>Completion\<close>

text \<open>With a finite \<open>k\<close> that is not zero no step meets a zero divisor.\<close>

lemma repelInner_Some: "\<exists>ns'. repelInner (Some kv) i js ns = Some ns'"
proof (induction js arbitrary: ns)
  case Nil
  then show ?case by simp
next
  case (Cons j js)
  show ?case
  proof (cases "i = j")
    case True
    then show ?thesis using Cons by simp
  next
    case False
    obtain v where "repel (Some kv) (ns ! i) (ns ! j) = Some v"
      using repel_Some[of kv "ns ! i" "ns ! j"] by auto
    then show ?thesis using False Cons[of "ns[i := v]"] by simp
  qed
qed

lemma repelOuter_Some: "\<exists>ns'. repelOuter (Some kv) is ns = Some ns'"
proof (induction "is" arbitrary: ns)
  case Nil
  then show ?case by simp
next
  case (Cons i "is")
  obtain ns1 where "repelInner (Some kv) i [0..<length ns] ns = Some ns1"
    using repelInner_Some by blast
  then show ?case using Cons[of ns1] by simp
qed

lemma attract_Some: "kv \<noteq> 0 \<Longrightarrow> \<exists>ns'. attract (Some kv) rel ns = Some ns'"
  by (auto simp: attract_def Let_def fdiv_floor fdiv_def split: option.splits)

lemma attractionPass_Some: "kv \<noteq> 0 \<Longrightarrow> \<exists>ns'. attractionPass (Some kv) rels ns = Some ns'"
proof (induction rels arbitrary: ns)
  case Nil
  then show ?case by simp
next
  case (Cons rel rels)
  obtain ns1 where "attract (Some kv) rel ns = Some ns1"
    using attract_Some[OF Cons.prems] by blast
  then show ?case using Cons.IH[OF Cons.prems, of ns1] by simp
qed

lemma simulate_Some: "kv \<noteq> 0 \<Longrightarrow> \<exists>ns'. simulate n (Some kv) rels ns = Some ns'"
proof (induction n arbitrary: ns)
  case 0
  then show ?case by simp
next
  case (Suc n)
  obtain ns1 where a: "repulsionPass (Some kv) ns = Some ns1"
    unfolding repulsionPass_def using repelOuter_Some by blast
  obtain ns2 where b: "attractionPass (Some kv) rels ns1 = Some ns2"
    using attractionPass_Some[OF Suc.prems] by blast
  show ?case using a b Suc.IH[OF Suc.prems, of ns2] by simp
qed

lemma layoutK_pos:
  assumes "0 < maxWidth d" "0 < maxHeight d"
    and "0 < length (Classes d) + length (Scalars d) + length (Directives d)"
  shows "\<exists>kv. 0 < kv \<and> layoutK d = Some kv"
proof -
  define n where "n = length (Classes d) + length (Scalars d) + length (Directives d)"
  have k: "layoutK d = do { q \<leftarrow> fdiv (maxWidth d * maxHeight d) (real n); fsqrt q }"
    by (simp add: layoutK_def n_def Let_def)
  have n: "0 < real n" using assms(3) unfolding n_def by linarith
  have q: "0 < maxWidth d * maxHeight d / real n" using assms(1,2) n by simp
  have "layoutK d = Some (sqrt (maxWidth d * maxHeight d / real n))"
    using n q by (simp add: k fdiv_def fsqrt_def)
  moreover have "0 < sqrt (maxWidth d * maxHeight d / real n)" using q by simp
  ultimately show ?thesis by blast
qed

subsection \<open>Coincident nodes\<close>

text \<open>Between two nodes at the same place the displacement is zero, and so is what the step
  adds.\<close>

lemma repel_coincident: "cPosition v = cPosition u \<Longrightarrow> repel (Some kv) v u = Some v"
  by (simp add: repel_def Let_def fdiv_floor)

lemma repelInner_coincident:
  "\<forall>c\<in>set ns. cPosition c = p \<Longrightarrow> i < length ns \<Longrightarrow> \<forall>j\<in>set js. j < length ns \<Longrightarrow>
   repelInner (Some kv) i js ns = Some ns"
proof (induction js)
  case Nil
  then show ?case by simp
next
  case (Cons j js)
  have "cPosition (ns ! i) = cPosition (ns ! j)" using Cons.prems by simp
  then have "repel (Some kv) (ns ! i) (ns ! j) = Some (ns ! i)" by (rule repel_coincident)
  moreover have "repelInner (Some kv) i js ns = Some ns" using Cons by simp
  ultimately show ?case by (cases "i = j") simp_all
qed

lemma repelOuter_coincident:
  "\<forall>c\<in>set ns. cPosition c = p \<Longrightarrow> \<forall>i\<in>set is. i < length ns \<Longrightarrow>
   repelOuter (Some kv) is ns = Some ns"
proof (induction "is")
  case Nil
  then show ?case by simp
next
  case (Cons i "is")
  have "repelInner (Some kv) i [0..<length ns] ns = Some ns"
    using Cons.prems by (intro repelInner_coincident[where p = p]) simp_all
  then show ?case using Cons by simp
qed

lemma repulsionPass_coincident:
  "\<forall>c\<in>set ns. cPosition c = p \<Longrightarrow> repulsionPass (Some kv) ns = Some ns"
  unfolding repulsionPass_def by (rule repelOuter_coincident[where p = p]) simp_all

lemma scanName_range:
  "scanName nm ns i found = Some j \<Longrightarrow> found = Some j \<or> (i \<le> j \<and> j < i + length ns)"
proof (induction ns arbitrary: i found)
  case Nil
  then show ?case by simp
next
  case (Cons a ns)
  from Cons.IH[OF Cons.prems[simplified]] show ?case
    by (auto split: if_splits)
qed

lemma findNode_lt: "findNode nm ns = Some j \<Longrightarrow> j < length ns"
  using scanName_range[of nm ns 0 None j] by (simp add: findNode_def)

lemma pos_eta: "\<lparr>X = X p, Y = Y p\<rparr> = p"
  by simp

lemma cPosition_same: "cPosition c = p \<Longrightarrow> c\<lparr>cPosition := p\<rparr> = c"
  by auto

lemma attract_coincident:
  assumes "\<forall>c\<in>set ns. cPosition c = p" and "kv \<noteq> 0"
  shows "attract (Some kv) rel ns = Some ns"
proof (cases "resolves ns rel")
  case False
  then show ?thesis by (rule attract_dangling)
next
  case True
  then obtain f t where f: "findNode (rFrom rel) ns = Some f" and t: "findNode (rTo rel) ns = Some t"
    by (auto simp: resolves_def)
  have pf: "cPosition (ns ! f) = p" and pt: "cPosition (ns ! t) = p"
    using assms(1) findNode_lt[OF f] findNode_lt[OF t] by simp_all
  have u: "(ns ! f)\<lparr>cPosition := p\<rparr> = ns ! f" "(ns ! t)\<lparr>cPosition := p\<rparr> = ns ! t"
    using pf pt by (simp_all add: cPosition_same)
  show ?thesis
    using assms(2) by (simp add: attract_def f t pf pt Let_def fdiv_floor fdiv_def pos_eta u)
qed

lemma attractionPass_coincident:
  "\<forall>c\<in>set ns. cPosition c = p \<Longrightarrow> kv \<noteq> 0 \<Longrightarrow> attractionPass (Some kv) rels ns = Some ns"
  by (induction rels) (simp_all add: attract_coincident[where p = p])

lemma simulate_coincident:
  "\<forall>c\<in>set ns. cPosition c = p \<Longrightarrow> kv \<noteq> 0 \<Longrightarrow> simulate n (Some kv) rels ns = Some ns"
  by (induction n)
    (simp_all add: repulsionPass_coincident[where p = p] attractionPass_coincident[where p = p])

lemma simulate_coincident_norel:
  "\<forall>c\<in>set ns. cPosition c = p \<Longrightarrow> simulate n (Some kv) [] ns = Some ns"
  by (induction n) (simp_all add: repulsionPass_coincident[where p = p])

subsection \<open>The values read from the random source\<close>

lemma scalarNodes_length: "length (fst (scalarNodes w h ss r)) = length ss"
  by (induction ss arbitrary: r) (simp_all add: Float64_def split_beta Let_def)

lemma directiveNodes_length: "length (fst (directiveNodes w h ds r)) = length ds"
  by (induction ds arbitrary: r) (simp_all add: Float64_def split_beta Let_def)

lemma scalarNodes_rest: "snd (scalarNodes w h ss r) = sdrop (2 * length ss) r"
  by (induction ss arbitrary: r) (simp_all add: Float64_def split_beta Let_def)

lemma directiveNodes_rest: "snd (directiveNodes w h ds r) = sdrop (2 * length ds) r"
  by (induction ds arbitrary: r) (simp_all add: Float64_def split_beta Let_def)

lemma scalarNodes_prefix:
  "stake (2 * length ss) r = stake (2 * length ss) r' \<Longrightarrow>
   fst (scalarNodes w h ss r) = fst (scalarNodes w h ss r')"
proof (induction ss arbitrary: r r')
  case Nil
  then show ?case by simp
next
  case (Cons s ss)
  from Cons.prems have h: "shd r = shd r'" "shd (stl r) = shd (stl r')"
    and t: "stake (2 * length ss) (stl (stl r)) = stake (2 * length ss) (stl (stl r'))"
    by simp_all
  show ?case using Cons.IH[OF t] h by (simp add: Float64_def split_beta Let_def)
qed

lemma directiveNodes_prefix:
  "stake (2 * length ds) r = stake (2 * length ds) r' \<Longrightarrow>
   fst (directiveNodes w h ds r) = fst (directiveNodes w h ds r')"
proof (induction ds arbitrary: r r')
  case Nil
  then show ?case by simp
next
  case (Cons s ss)
  from Cons.prems have h: "shd r = shd r'" "shd (stl r) = shd (stl r')"
    and t: "stake (2 * length ss) (stl (stl r)) = stake (2 * length ss) (stl (stl r'))"
    by simp_all
  show ?case using Cons.IH[OF t] h by (simp add: Float64_def split_beta Let_def)
qed

lemma initialNodes_fst:
  "fst (initialNodes d r) =
   Classes d @ fst (scalarNodes (maxWidth d) (maxHeight d) (Scalars d) r)
     @ fst (directiveNodes (maxWidth d) (maxHeight d) (Directives d) (sdrop (2 * length (Scalars d)) r))"
  by (simp add: initialNodes_def split_beta Let_def scalarNodes_rest)

lemma initialNodes_snd: "snd (initialNodes d r) = sdrop (draws d) r"
  by (simp add: initialNodes_def split_beta Let_def scalarNodes_rest directiveNodes_rest draws_def
      sdrop_add add.commute distrib_left)

lemma stake_split:
  assumes "stake (m + n) r = stake (m + n) r'"
  shows "stake m r = stake m r'" and "stake n (sdrop m r) = stake n (sdrop m r')"
proof -
  have "stake m r @ stake n (sdrop m r) = stake m r' @ stake n (sdrop m r')"
    using assms by (simp add: stake_add)
  moreover have "length (stake m r) = length (stake m r')" by simp
  ultimately have "stake m r = stake m r' \<and> stake n (sdrop m r) = stake n (sdrop m r')"
    by (metis append_eq_append_conv)
  then show "stake m r = stake m r'" and "stake n (sdrop m r) = stake n (sdrop m r')"
    by blast+
qed

lemma initialNodes_prefix:
  assumes "stake (draws d) r = stake (draws d) r'"
  shows "fst (initialNodes d r) = fst (initialNodes d r')"
proof -
  have a: "stake (2 * length (Scalars d) + 2 * length (Directives d)) r
         = stake (2 * length (Scalars d) + 2 * length (Directives d)) r'"
    using assms by (simp add: draws_def)
  show ?thesis
    unfolding initialNodes_fst
    using scalarNodes_prefix[OF stake_split(1)[OF a]] directiveNodes_prefix[OF stake_split(2)[OF a]]
    by simp
qed

subsection \<open>The layout as a whole\<close>

lemma calculateLayout_eq:
  "calculateLayout d r =
   map_option (\<lambda>ns. (d\<lparr>Classes := take (length (Classes d)) ns\<rparr>, sdrop (draws d) r))
     (simulate iterations (layoutK d) (Relations d) (fst (initialNodes d r)))"
proof -
  obtain a b where ab: "initialNodes d r = (a, b)" by (cases "initialNodes d r")
  have "b = sdrop (draws d) r" using initialNodes_snd[of d r] ab by simp
  then show ?thesis
    by (cases "simulate iterations (layoutK d) (Relations d) a") (simp_all add: calculateLayout_def ab)
qed

lemma calculateLayout_frame:
  assumes "calculateLayout d r = Some (d', r')"
  shows "d' = d\<lparr>Classes := Classes d'\<rparr>" and "map erasePos (Classes d') = map erasePos (Classes d)"
    and "r' = sdrop (draws d) r"
proof -
  from assms obtain ns where s: "simulate iterations (layoutK d) (Relations d) (fst (initialNodes d r)) = Some ns"
    and d': "d' = d\<lparr>Classes := take (length (Classes d)) ns\<rparr>" and r': "r' = sdrop (draws d) r"
    by (auto simp: calculateLayout_eq)
  show "d' = d\<lparr>Classes := Classes d'\<rparr>" by (simp add: d')
  show "r' = sdrop (draws d) r" by (rule r')
  have "map erasePos ns = map erasePos (fst (initialNodes d r))" using s by (rule simulate_frame)
  then have "take (length (Classes d)) (map erasePos ns)
           = take (length (Classes d)) (map erasePos (fst (initialNodes d r)))" by simp
  then show "map erasePos (Classes d') = map erasePos (Classes d)"
    by (simp add: d' take_map initialNodes_fst)
qed

lemma calculateLayout_empty:
  assumes "Classes d = []" "Scalars d = []" "Directives d = []"
  shows "calculateLayout d r = Some (d, r)"
proof -
  have "fst (initialNodes d r) = []" by (simp add: initialNodes_fst assms)
  moreover have "draws d = 0" by (simp add: draws_def assms)
  moreover have "d\<lparr>Classes := []\<rparr> = d" using assms(1) by simp
  ultimately show ?thesis by (simp add: calculateLayout_eq simulate_Nil)
qed

lemma calculateLayout_Some:
  assumes "0 < maxWidth d" "0 < maxHeight d"
  shows "\<exists>d' r'. calculateLayout d r = Some (d', r')"
proof (cases "length (Classes d) + length (Scalars d) + length (Directives d) = 0")
  case True
  then show ?thesis using calculateLayout_empty[of d r] by simp
next
  case False
  then obtain kv where "0 < kv" and k: "layoutK d = Some kv"
    using layoutK_pos[OF assms] by auto
  then have "kv \<noteq> 0" by simp
  from simulate_Some[OF this, of iterations "Relations d" "fst (initialNodes d r)"] k
  obtain ns where "simulate iterations (layoutK d) (Relations d) (fst (initialNodes d r)) = Some ns"
    by auto
  then show ?thesis by (simp add: calculateLayout_eq)
qed

lemma calculateLayout_coincident:
  assumes "0 < maxWidth d" "0 < maxHeight d" "Scalars d = []" "Directives d = []"
    and "\<forall>c\<in>set (Classes d). cPosition c = p"
  shows "calculateLayout d r = Some (d, r)"
proof (cases "Classes d = []")
  case True
  then show ?thesis using assms(3,4) by (rule calculateLayout_empty)
next
  case False
  then have "0 < length (Classes d) + length (Scalars d) + length (Directives d)" by simp
  then obtain kv where kv: "0 < kv" and k: "layoutK d = Some kv"
    using layoutK_pos[OF assms(1,2)] by auto
  have i: "fst (initialNodes d r) = Classes d" by (simp add: initialNodes_fst assms)
  have "simulate iterations (Some kv) (Relations d) (Classes d) = Some (Classes d)"
    using assms(5) kv by (intro simulate_coincident[where p = p]) simp_all
  moreover have "draws d = 0" by (simp add: draws_def assms)
  ultimately show ?thesis by (simp add: calculateLayout_eq i k)
qed

lemma simulate_norel_Some: "\<exists>ns'. simulate n (Some kv) [] ns = Some ns'"
proof (induction n arbitrary: ns)
  case 0
  then show ?case by simp
next
  case (Suc n)
  obtain ns1 where a: "repulsionPass (Some kv) ns = Some ns1"
    unfolding repulsionPass_def using repelOuter_Some by blast
  show ?case using a Suc[of ns1] by simp
qed

lemma twins_positions: "\<forall>c\<in>set (Classes twins). cPosition c = \<lparr>X = 5, Y = 7\<rparr>"
  by (simp add: twins_def)

lemma twoClasses_positions: "\<forall>c\<in>set (Classes twoClasses). cPosition c = \<lparr>X = 0, Y = 0\<rparr>"
  by (simp add: twoClasses_def newClass_def)

subsection \<open>The steps written with the floored distance\<close>

lemma flooredDistance_ge: "0.1 \<le> flooredDistance p q"
  by (simp add: flooredDistance_def)

lemma flooredDistance_pos: "0 < flooredDistance p q"
  using flooredDistance_ge[of p q] by linarith

lemma flooredDistance_self: "flooredDistance p p = 0.1"
  by (simp add: flooredDistance_def euclidean_def)

lemma inline_distance:
  "max 0.1 (sqrt ((X p - X q) * (X p - X q) + (Y p - Y q) * (Y p - Y q))) = flooredDistance p q"
  by (simp add: flooredDistance_def euclidean_def power2_eq_square)

lemma repel_eq:
  "repel (Some kv) v u =
   Some (moveBy v
     ((X (cPosition v) - X (cPosition u)) / flooredDistance (cPosition v) (cPosition u)
        * (kv * kv / flooredDistance (cPosition v) (cPosition u)))
     ((Y (cPosition v) - Y (cPosition u)) / flooredDistance (cPosition v) (cPosition u)
        * (kv * kv / flooredDistance (cPosition v) (cPosition u))))"
  unfolding repel_def inline_distance Let_def moveBy_def
  using flooredDistance_pos[of "cPosition v" "cPosition u"] by (simp add: fdiv_def)

lemma repel_None: "repel k v u = None \<longleftrightarrow> k = None"
  by (cases k) (simp_all add: repel_eq, simp add: repel_def)

lemma attract_eq:
  assumes "findNode (rFrom rel) ns = Some f" "findNode (rTo rel) ns = Some t" "kv \<noteq> 0"
  shows "attract (Some kv) rel ns =
    Some (let D = flooredDistance (cPosition (ns ! f)) (cPosition (ns ! t));
              ax = (X (cPosition (ns ! f)) - X (cPosition (ns ! t))) / D * (D * D / kv);
              ay = (Y (cPosition (ns ! f)) - Y (cPosition (ns ! t))) / D * (D * D / kv);
              ns1 = ns[f := moveBy (ns ! f) (- ax) (- ay)]
          in ns1[t := moveBy (ns1 ! t) ax ay])"
  unfolding attract_def inline_distance Let_def moveBy_def
  using flooredDistance_pos[of "cPosition (ns ! f)" "cPosition (ns ! t)"] assms
  by (simp add: fdiv_def)

lemma attract_None: "attract k rel ns = None \<longleftrightarrow> resolves ns rel \<and> (k = None \<or> k = Some 0)"
proof (cases "resolves ns rel")
  case False
  then show ?thesis by (simp add: attract_dangling)
next
  case True
  then obtain f t where ft: "findNode (rFrom rel) ns = Some f" "findNode (rTo rel) ns = Some t"
    by (auto simp: resolves_def)
  show ?thesis
  proof (cases k)
    case None
    then show ?thesis using True ft by (simp add: attract_def)
  next
    case (Some kv)
    show ?thesis
    proof (cases "kv = 0")
      case True
      then show ?thesis using Some \<open>resolves ns rel\<close> ft by (simp add: attract_def Let_def fdiv_def)
    next
      case False
      then show ?thesis using Some attract_eq[OF ft False] by simp
    qed
  qed
qed

lemma calculateLayout_filter:
  "map_option (\<lambda>(d', r'). (Classes d', r')) (calculateLayout d r)
   = map_option (\<lambda>(d', r'). (Classes d', r'))
       (calculateLayout (d\<lparr>Relations := filter (resolves (fst (initialNodes d r))) (Relations d)\<rparr>) r)"
proof -
  let ?d = "d\<lparr>Relations := filter (resolves (fst (initialNodes d r))) (Relations d)\<rparr>"
  have k: "layoutK ?d = layoutK d" by (simp add: layoutK_def)
  have i: "fst (initialNodes ?d r) = fst (initialNodes d r)" by (simp add: initialNodes_fst)
  have n: "draws ?d = draws d" by (simp add: draws_def)
  have s: "simulate iterations (layoutK d)
             (filter (resolves (fst (initialNodes d r))) (Relations d)) (fst (initialNodes d r))
         = simulate iterations (layoutK d) (Relations d) (fst (initialNodes d r))"
    by (rule simulate_filter) simp
  have r: "Relations ?d = filter (resolves (fst (initialNodes d r))) (Relations d)"
    and c: "length (Classes ?d) = length (Classes d)" by simp_all
  show ?thesis
    unfolding calculateLayout_eq k i n r c s
    by (simp add: option.map_comp comp_def)
qed

lemma mixedNodes_eq:
  "mixedNodes =
    [newClass ''A'' [\<lparr>fName = ''d'', fType = ''Date'', fIsRequired = False\<rparr>,
                    \<lparr>fName = ''s'', fType = ''Status'', fIsRequired = False\<rparr>],
     \<lparr>cID = ''scalar_Date'', cName = ''Date'', cFields = [],
      cPosition = \<lparr>X = 960, Y = 540\<rparr>, cWidth = 80, cHeight = 80\<rparr>,
     \<lparr>cID = ''directive_auth'', cName = ''@auth'', cFields = [],
      cPosition = \<lparr>X = 960, Y = 540\<rparr>, cWidth = 160, cHeight = 110\<rparr>]"
  by (simp add: mixedNodes_def initialNodes_def mixed_def halves_def Float64_def Let_def
      newScalar_def newDirective_def ScalarWidth_def ScalarHeight_def DirectiveWidth_def
      DirectiveHeight_def FieldHeight_def)

subsection \<open>Two nodes and no relation\<close>

text \<open>A repulsion step scales the displacement of the two nodes by a factor of at least one.\<close>

lemma repulsionPass_two:
  "repulsionPass k [a, b] = do { a' \<leftarrow> repel k a b; b' \<leftarrow> repel k b a'; Some [a', b'] }"
proof (cases "repel k a b")
  case None
  then show ?thesis by (simp add: repulsionPass_def)
next
  case (Some a')
  then show ?thesis by (cases "repel k b a'") (simp_all add: repulsionPass_def)
qed

lemma Position_eqI: "X p = X q \<Longrightarrow> Y p = Y q \<Longrightarrow> p = (q::Position)"
  by simp

lemma repel_scale:
  assumes "repel (Some kv) v u = Some v'"
  defines "D \<equiv> flooredDistance (cPosition v) (cPosition u)"
  shows "X (cPosition v') - X (cPosition u) = (X (cPosition v) - X (cPosition u)) * (1 + kv * kv / (D * D))"
    and "Y (cPosition v') - Y (cPosition u) = (Y (cPosition v) - Y (cPosition u)) * (1 + kv * kv / (D * D))"
proof -
  have D: "D \<noteq> 0" unfolding D_def using flooredDistance_pos[of "cPosition v" "cPosition u"] by simp
  have v': "v' = moveBy v ((X (cPosition v) - X (cPosition u)) / D * (kv * kv / D))
                         ((Y (cPosition v) - Y (cPosition u)) / D * (kv * kv / D))"
    using assms(1) unfolding repel_eq D_def by simp
  show "X (cPosition v') - X (cPosition u) = (X (cPosition v) - X (cPosition u)) * (1 + kv * kv / (D * D))"
    unfolding v' moveBy_def using D by (simp add: field_simps)
  show "Y (cPosition v') - Y (cPosition u) = (Y (cPosition v) - Y (cPosition u)) * (1 + kv * kv / (D * D))"
    unfolding v' moveBy_def using D by (simp add: field_simps)
qed

lemma scale_pos: "0 < 1 + kv * kv / (D * (D::real))"
proof -
  have "0 \<le> kv * kv / (D * D)" by simp
  then show ?thesis by linarith
qed

lemma scale_gt1: "kv \<noteq> 0 \<Longrightarrow> 0 < D \<Longrightarrow> 1 < 1 + kv * kv / (D * (D::real))"
proof -
  assume k: "kv \<noteq> 0" and D: "0 < D"
  have "0 < kv * kv" using k not_real_square_gt_zero[of kv] by blast
  moreover have "0 < D * D" using D by simp
  ultimately have "0 < kv * kv / (D * D)" by (rule divide_pos_pos)
  then show ?thesis by simp
qed

lemma repel_apart:
  assumes "repel (Some kv) v u = Some v'" and "cPosition v \<noteq> cPosition u"
  shows "cPosition v' \<noteq> cPosition u"
proof
  assume e: "cPosition v' = cPosition u"
  let ?c = "1 + kv * kv / (flooredDistance (cPosition v) (cPosition u) * flooredDistance (cPosition v) (cPosition u))"
  have c: "?c \<noteq> 0" using scale_pos[of kv "flooredDistance (cPosition v) (cPosition u)"] by simp
  from repel_scale[OF assms(1)] e
  have "(X (cPosition v) - X (cPosition u)) * ?c = 0" "(Y (cPosition v) - Y (cPosition u)) * ?c = 0"
    by simp_all
  with c have "X (cPosition v) = X (cPosition u)" "Y (cPosition v) = Y (cPosition u)" by simp_all
  then have "cPosition v = cPosition u" by (rule Position_eqI)
  with assms(2) show False by contradiction
qed

lemma two_body_apart:
  "cPosition a \<noteq> cPosition b \<Longrightarrow>
   \<exists>a' b'. simulate n (Some kv) [] [a, b] = Some [a', b'] \<and> cPosition a' \<noteq> cPosition b'"
proof (induction n arbitrary: a b)
  case 0
  then show ?case by simp
next
  case (Suc n)
  obtain a1 where a1: "repel (Some kv) a b = Some a1" using repel_eq by blast
  obtain b1 where b1: "repel (Some kv) b a1 = Some b1" using repel_eq by blast
  have "cPosition a1 \<noteq> cPosition b" using a1 Suc.prems by (rule repel_apart)
  then have "cPosition b \<noteq> cPosition a1" by simp
  with b1 have "cPosition b1 \<noteq> cPosition a1" by (rule repel_apart)
  then have "cPosition a1 \<noteq> cPosition b1" by simp
  from Suc.IH[OF this] show ?case by (simp add: repulsionPass_two a1 b1)
qed

lemma repel_left:
  assumes "repel (Some kv) v u = Some v'" "kv \<noteq> 0" "X (cPosition v) < X (cPosition u)"
  shows "X (cPosition v') < X (cPosition v)"
proof -
  let ?D = "flooredDistance (cPosition v) (cPosition u)"
  have "1 < 1 + kv * kv / (?D * ?D)"
    using assms(2) flooredDistance_pos[of "cPosition v" "cPosition u"] by (rule scale_gt1)
  moreover have "X (cPosition v) - X (cPosition u) < 0" using assms(3) by simp
  ultimately have "(X (cPosition v) - X (cPosition u)) * (1 + kv * kv / (?D * ?D))
                 < (X (cPosition v) - X (cPosition u)) * 1"
    by (intro mult_strict_left_mono_neg)
  with repel_scale(1)[OF assms(1)] show ?thesis by simp
qed

lemma repel_right:
  assumes "repel (Some kv) v u = Some v'" "kv \<noteq> 0" "X (cPosition u) < X (cPosition v)"
  shows "X (cPosition v) < X (cPosition v')"
proof -
  let ?D = "flooredDistance (cPosition v) (cPosition u)"
  have "1 < 1 + kv * kv / (?D * ?D)"
    using assms(2) flooredDistance_pos[of "cPosition v" "cPosition u"] by (rule scale_gt1)
  moreover have "0 < X (cPosition v) - X (cPosition u)" using assms(3) by simp
  ultimately have "(X (cPosition v) - X (cPosition u)) * 1
                 < (X (cPosition v) - X (cPosition u)) * (1 + kv * kv / (?D * ?D))"
    by (intro mult_strict_left_mono)
  with repel_scale(1)[OF assms(1)] show ?thesis by simp
qed

lemma two_body_left:
  "kv \<noteq> 0 \<Longrightarrow> X (cPosition a) < X (cPosition b) \<Longrightarrow>
   \<exists>a' b'. simulate n (Some kv) [] [a, b] = Some [a', b'] \<and>
     X (cPosition a') \<le> X (cPosition a) \<and> (0 < n \<longrightarrow> X (cPosition a') < X (cPosition a)) \<and>
     erasePos a' = erasePos a"
proof (induction n arbitrary: a b)
  case 0
  then show ?case by simp
next
  case (Suc n)
  obtain a1 where a1: "repel (Some kv) a b = Some a1" using repel_eq by blast
  obtain b1 where b1: "repel (Some kv) b a1 = Some b1" using repel_eq by blast
  have l: "X (cPosition a1) < X (cPosition a)" using a1 Suc.prems by (rule repel_left)
  then have "X (cPosition a1) < X (cPosition b)" using Suc.prems(2) by simp
  with b1 Suc.prems(1) have "X (cPosition b) < X (cPosition b1)" by (rule repel_right)
  then have "X (cPosition a1) < X (cPosition b1)" using l Suc.prems(2) by simp
  from Suc.IH[OF Suc.prems(1) this] obtain a' b' where
    s: "simulate n (Some kv) [] [a1, b1] = Some [a', b']" and
    le: "X (cPosition a') \<le> X (cPosition a1)" and e: "erasePos a' = erasePos a1"
    by blast
  have "erasePos a1 = erasePos a" using a1 by (rule repel_frame)
  then show ?case using s le l e by (simp add: repulsionPass_two a1 b1)
qed

lemma layoutK_nonneg:
  assumes "0 \<le> maxWidth d * maxHeight d"
    and "0 < length (Classes d) + length (Scalars d) + length (Directives d)"
  shows "\<exists>kv. layoutK d = Some kv"
proof -
  define n where "n = length (Classes d) + length (Scalars d) + length (Directives d)"
  have k: "layoutK d = do { q \<leftarrow> fdiv (maxWidth d * maxHeight d) (real n); fsqrt q }"
    by (simp add: layoutK_def n_def Let_def)
  have n: "0 < real n" using assms(2) unfolding n_def by linarith
  have q: "0 \<le> maxWidth d * maxHeight d / real n" using assms(1) n by simp
  show ?thesis using n q by (simp add: k fdiv_def fsqrt_def)
qed

lemma calculateLayout_norel_Some:
  assumes "Relations d = []" "0 \<le> maxWidth d * maxHeight d"
  shows "\<exists>d' r'. calculateLayout d r = Some (d', r')"
proof (cases "length (Classes d) + length (Scalars d) + length (Directives d) = 0")
  case True
  then show ?thesis using calculateLayout_empty[of d r] by simp
next
  case False
  then obtain kv where k: "layoutK d = Some kv" using layoutK_nonneg[OF assms(2)] by auto
  obtain ns where "simulate iterations (Some kv) [] (fst (initialNodes d r)) = Some ns"
    using simulate_norel_Some by blast
  then show ?thesis by (simp add: calculateLayout_eq k assms(1))
qed

subsection \<open>The mermaid text\<close>

lemma mermaidText_erasePositions: "mermaidText (erasePositions d) = mermaidText d"
proof -
  have c: "\<And>c p. mermaidClass (c\<lparr>cPosition := p\<rparr>) = mermaidClass c" by (simp add: mermaidClass_def)
  have s: "\<And>s p. mermaidScalar (s\<lparr>sPosition := p\<rparr>) = mermaidScalar s" by (simp add: mermaidScalar_def)
  have x: "\<And>x p. mermaidDirective (x\<lparr>dPosition := p\<rparr>) = mermaidDirective x"
    by (simp add: mermaidDirective_def)
  show ?thesis
    by (simp add: mermaidText_def erasePositions_def comp_def c s x)
qed

subsection \<open>Runs on random sources that agree\<close>

lemma calculateLayout_prefix:
  assumes "stake (draws d) r = stake (draws d) r'"
  shows "map_option fst (calculateLayout d r) = map_option fst (calculateLayout d r')"
  unfolding calculateLayout_eq initialNodes_prefix[OF assms]
  by (simp add: option.map_comp comp_def)

lemma calculateLayout_cases:
  assumes "stake (draws d) r = stake (draws d) r'"
  shows "(calculateLayout d r = None \<and> calculateLayout d r' = None) \<or>
         (\<exists>d'. calculateLayout d r = Some (d', sdrop (draws d) r) \<and>
               calculateLayout d r' = Some (d', sdrop (draws d) r') \<and> draws d' = draws d)"
proof (cases "simulate iterations (layoutK d) (Relations d) (fst (initialNodes d r))")
  case None
  then show ?thesis unfolding calculateLayout_eq initialNodes_prefix[OF assms, symmetric] by simp
next
  case (Some ns)
  then show ?thesis unfolding calculateLayout_eq initialNodes_prefix[OF assms, symmetric]
    by (simp add: draws_def)
qed

lemma draws_Classes: "draws (d\<lparr>Classes := cs\<rparr>) = draws d"
  by (simp add: draws_def)

lemma stake_split3:
  assumes "stake (3 * m) r = stake (3 * m) r'"
  shows "stake m r = stake m r'" and "stake m (sdrop m r) = stake m (sdrop m r')"
    and "stake m (sdrop m (sdrop m r)) = stake m (sdrop m (sdrop m r'))"
proof -
  have "3 * m = m + (m + m)" by simp
  with assms have a: "stake (m + (m + m)) r = stake (m + (m + m)) r'" by simp
  show "stake m r = stake m r'" by (rule stake_split(1)[OF a])
  have b: "stake (m + m) (sdrop m r) = stake (m + m) (sdrop m r')" by (rule stake_split(2)[OF a])
  show "stake m (sdrop m r) = stake m (sdrop m r')" by (rule stake_split(1)[OF b])
  show "stake m (sdrop m (sdrop m r)) = stake m (sdrop m (sdrop m r'))" by (rule stake_split(2)[OF b])
qed

lemma generateDrawIOXML_prefix:
  assumes "stake (3 * draws d) r = stake (3 * draws d) r'"
  shows "stripRng (generateDrawIOXML d r) = stripRng (generateDrawIOXML d r')"
proof -
  let ?m = "draws d"
  note s = stake_split3[OF assms]
  from calculateLayout_cases[OF s(1)] show ?thesis
  proof
    assume "calculateLayout d r = None \<and> calculateLayout d r' = None"
    then show ?thesis by (simp add: generateDrawIOXML_def)
  next
    assume "\<exists>d'. calculateLayout d r = Some (d', sdrop ?m r) \<and>
               calculateLayout d r' = Some (d', sdrop ?m r') \<and> draws d' = ?m"
    then obtain d1 where c1: "calculateLayout d r = Some (d1, sdrop ?m r)"
      "calculateLayout d r' = Some (d1, sdrop ?m r')" and m1: "draws d1 = ?m" by blast
    let ?d2 = "d1\<lparr>Classes := Classes d1 @ map scalarClass (Scalars d1)\<rparr>"
    have m2: "draws ?d2 = ?m" using m1 by (simp add: draws_Classes)
    have s2: "stake (draws ?d2) (sdrop ?m r) = stake (draws ?d2) (sdrop ?m r')"
      unfolding m2 by (rule s(2))
    from calculateLayout_cases[OF s2] show ?thesis
    proof
      assume "calculateLayout ?d2 (sdrop ?m r) = None \<and> calculateLayout ?d2 (sdrop ?m r') = None"
      then show ?thesis using c1 by (simp add: generateDrawIOXML_def Let_def)
    next
      assume "\<exists>d'. calculateLayout ?d2 (sdrop ?m r) = Some (d', sdrop (draws ?d2) (sdrop ?m r)) \<and>
               calculateLayout ?d2 (sdrop ?m r') = Some (d', sdrop (draws ?d2) (sdrop ?m r')) \<and>
               draws d' = draws ?d2"
      then obtain d3 where c3: "calculateLayout ?d2 (sdrop ?m r) = Some (d3, sdrop ?m (sdrop ?m r))"
        "calculateLayout ?d2 (sdrop ?m r') = Some (d3, sdrop ?m (sdrop ?m r'))" and m3: "draws d3 = ?m"
        unfolding m2 by blast
      let ?d4 = "d3\<lparr>Classes := Classes d3 @ map directiveClass (Directives d3)\<rparr>"
      have m4: "draws ?d4 = ?m" using m3 by (simp add: draws_Classes)
      have s4: "stake (draws ?d4) (sdrop ?m (sdrop ?m r)) = stake (draws ?d4) (sdrop ?m (sdrop ?m r'))"
        unfolding m4 by (rule s(3))
      from calculateLayout_cases[OF s4] show ?thesis
      proof
        assume "calculateLayout ?d4 (sdrop ?m (sdrop ?m r)) = None \<and>
                calculateLayout ?d4 (sdrop ?m (sdrop ?m r')) = None"
        then show ?thesis using c1 c3 by (simp add: generateDrawIOXML_def Let_def del: sdrop_add)
      next
        assume "\<exists>d'. calculateLayout ?d4 (sdrop ?m (sdrop ?m r))
                      = Some (d', sdrop (draws ?d4) (sdrop ?m (sdrop ?m r))) \<and>
               calculateLayout ?d4 (sdrop ?m (sdrop ?m r'))
                      = Some (d', sdrop (draws ?d4) (sdrop ?m (sdrop ?m r'))) \<and>
               draws d' = draws ?d4"
        then obtain d5 where
          "calculateLayout ?d4 (sdrop ?m (sdrop ?m r)) = Some (d5, sdrop (draws ?d4) (sdrop ?m (sdrop ?m r)))"
          "calculateLayout ?d4 (sdrop ?m (sdrop ?m r')) = Some (d5, sdrop (draws ?d4) (sdrop ?m (sdrop ?m r')))"
          by blast
        then show ?thesis using c1 c3
          by (simp add: generateDrawIOXML_def Let_def stripRng_def del: sdrop_add)
      qed
    qed
  qed
qed

lemma draws_mixed: "draws mixed = 4"
  by (simp add: draws_def mixed_def)

lemma stake_halves: "stake n halves = replicate n (1 / 2)"
  by (induction n) (simp_all add: halves_def replicate_append_same)

lemma stake_halvesThenZeros: "n \<le> 12 \<Longrightarrow> stake n halvesThenZeros = replicate n (1 / 2)"
  by (simp add: halvesThenZeros_def stake_shift min_def)

lemma streams_differ: "halves \<noteq> halvesThenZeros"
proof
  assume "halves = halvesThenZeros"
  then have "halves !! 12 = halvesThenZeros !! 12" by simp
  then show False by (simp add: halves_def halvesThenZeros_def shift_snth_ge)
qed

subsection \<open>The cells of the draw.io output\<close>

lemma sdrop_halves: "sdrop n halves = halves"
  by (simp add: halves_def)

lemma generateDrawIOXML_cells:
  assumes "generateDrawIOXML d r = Some (file, d', r')"
  shows "\<exists>d1 r1. calculateLayout d r = Some (d1, r1) \<and>
     Cells file = rootCells @ concat (map classCells (Classes d1)) @ edgeCells 0 (Relations d)
                  @ map scalarCell (Scalars d) @ concat (map directiveCells (Directives d)) \<and>
     Scalars d' = Scalars d \<and> Directives d' = Directives d \<and> diagramName file = ''GraphQL Schema''"
proof -
  from assms obtain d1 r1 where c1: "calculateLayout d r = Some (d1, r1)"
    by (auto simp: generateDrawIOXML_def split: bind_splits)
  let ?d2 = "d1\<lparr>Classes := Classes d1 @ map scalarClass (Scalars d1)\<rparr>"
  from assms c1 obtain d3 r3 where c3: "calculateLayout ?d2 r1 = Some (d3, r3)"
    by (auto simp: generateDrawIOXML_def Let_def split: bind_splits)
  let ?d4 = "d3\<lparr>Classes := Classes d3 @ map directiveClass (Directives d3)\<rparr>"
  from assms c1 c3 obtain d5 r5 where c5: "calculateLayout ?d4 r3 = Some (d5, r5)"
    by (auto simp: generateDrawIOXML_def Let_def split: bind_splits)
  have f1: "d1 = d\<lparr>Classes := Classes d1\<rparr>" by (rule calculateLayout_frame(1)[OF c1])
  have f3: "d3 = ?d2\<lparr>Classes := Classes d3\<rparr>" by (rule calculateLayout_frame(1)[OF c3])
  have f5: "d5 = ?d4\<lparr>Classes := Classes d5\<rparr>" by (rule calculateLayout_frame(1)[OF c5])
  have e1: "Relations d1 = Relations d" "Scalars d1 = Scalars d" "Directives d1 = Directives d"
    by (subst f1, simp)+
  have e3: "Scalars d3 = Scalars d" "Directives d3 = Directives d"
    using e1 by (subst f3, simp)+
  have e5: "Scalars d5 = Scalars d" "Directives d5 = Directives d"
    using e3 by (subst f5, simp)+
  have "file = \<lparr>diagramName = ''GraphQL Schema'',
          Cells = (rootCells @ concat (map classCells (Classes d1)) @ edgeCells 0 (Relations d1)
                  @ map scalarCell (Scalars d3)) @ concat (map directiveCells (Directives d5))\<rparr>"
    and "d' = d5"
    using assms c1 c3 c5 by (auto simp: generateDrawIOXML_def Let_def)
  then show ?thesis using c1 e1 e3 e5 by simp
qed

lemma scalar_layout_step:
  assumes "X (cPosition a) \<le> 0"
  shows "\<exists>a'. calculateLayout (oneScalar\<lparr>Classes := [a]\<rparr>) halves
               = Some (oneScalar\<lparr>Classes := [a']\<rparr>, halves) \<and>
              X (cPosition a') < X (cPosition a) \<and> erasePos a' = erasePos a"
proof -
  let ?d = "oneScalar\<lparr>Classes := [a]\<rparr>"
  have "0 < maxWidth ?d" "0 < maxHeight ?d"
    "0 < length (Classes ?d) + length (Scalars ?d) + length (Directives ?d)"
    by (simp_all add: oneScalar_def)
  then obtain kv where kv: "0 < kv" and k: "layoutK ?d = Some kv"
    using layoutK_pos[of ?d] by blast
  have i: "fst (initialNodes ?d halves) = [a, dateNode]"
    by (simp add: initialNodes_def oneScalar_def halves_def Float64_def Let_def newScalar_def
        dateNode_def)
  have "X (cPosition a) < X (cPosition dateNode)" using assms by (simp add: dateNode_def)
  with kv obtain a' b' where s: "simulate iterations (Some kv) [] [a, dateNode] = Some [a', b']"
    and l: "0 < iterations \<longrightarrow> X (cPosition a') < X (cPosition a)" and e: "erasePos a' = erasePos a"
    using two_body_left[of kv a dateNode iterations] by auto
  have r: "Relations oneScalar = []" by (simp add: oneScalar_def)
  have "calculateLayout ?d halves = Some (?d\<lparr>Classes := [a']\<rparr>, halves)"
    by (simp add: calculateLayout_eq k i s r sdrop_halves)
  then show ?thesis using l e by (auto simp: iterations_def)
qed

lemma oneScalar_first: "calculateLayout oneScalar halves = Some (oneScalar, halves)"
proof -
  have "0 < maxWidth oneScalar" "0 < maxHeight oneScalar"
    "0 < length (Classes oneScalar) + length (Scalars oneScalar) + length (Directives oneScalar)"
    by (simp_all add: oneScalar_def)
  then obtain kv where k: "layoutK oneScalar = Some kv"
    using layoutK_pos[of oneScalar] by blast
  have i: "fst (initialNodes oneScalar halves) = [dateNode]"
    by (simp add: initialNodes_def oneScalar_def halves_def Float64_def Let_def newScalar_def
        dateNode_def)
  have s: "simulate iterations (Some kv) [] [dateNode] = Some [dateNode]"
    by (rule simulate_coincident_norel[where p = "cPosition dateNode"]) simp
  have r: "Relations oneScalar = []" "Classes oneScalar = []" by (simp_all add: oneScalar_def)
  have "oneScalar\<lparr>Classes := []\<rparr> = oneScalar" by (simp add: oneScalar_def)
  then show ?thesis
    by (simp add: calculateLayout_eq k i s r sdrop_halves)
qed

subsection \<open>The passes as loops\<close>

lemma forEach_append:
  "forEach f (xs @ ys) s = (case forEach f xs s of None \<Rightarrow> None | Some s1 \<Rightarrow> forEach f ys s1)"
  by (induction xs arbitrary: s) (simp_all split: option.splits)

lemma forEach_length:
  "(\<And>x s s1. f x s = Some s1 \<Longrightarrow> length s1 = length s) \<Longrightarrow>
   forEach f xs s = Some s' \<Longrightarrow> length s' = length s"
proof (induction xs arbitrary: s)
  case Nil
  then show ?case by simp
next
  case (Cons x xs)
  from Cons.prems(2) obtain s1 where a: "f x s = Some s1" and b: "forEach f xs s1 = Some s'"
    by (auto split: option.splits)
  have "length s' = length s1" using Cons.IH[OF Cons.prems(1) b] by simp
  then show ?case using Cons.prems(1)[OF a] by simp
qed

lemma repelInner_forEach:
  "repelInner k i js ns = forEach (repelPair k) (map (\<lambda>j. (i, j)) (filter (\<lambda>j. i \<noteq> j) js)) ns"
proof (induction js arbitrary: ns)
  case Nil
  then show ?case by simp
next
  case (Cons j js)
  show ?case
  proof (cases "i = j")
    case True
    then show ?thesis using Cons by simp
  next
    case False
    then show ?thesis using Cons
      by (cases "repel k (ns ! i) (ns ! j)") (simp_all add: repelPair_def)
  qed
qed

lemma repelOuter_forEach:
  "repelOuter k is ns =
   forEach (repelPair k)
     (concat (map (\<lambda>i. map (\<lambda>j. (i, j)) (filter (\<lambda>j. i \<noteq> j) [0..<length ns])) is)) ns"
proof (induction "is" arbitrary: ns)
  case Nil
  then show ?case by simp
next
  case (Cons i "is")
  show ?case
  proof (cases "repelInner k i [0..<length ns] ns")
    case None
    then show ?thesis by (simp add: forEach_append repelInner_forEach[symmetric])
  next
    case (Some ns1)
    have "length ns1 = length ns" using Some by (rule repelInner_length)
    then show ?thesis using Some Cons[of ns1]
      by (simp add: forEach_append repelInner_forEach[symmetric])
  qed
qed

lemma repulsionPass_forEach:
  "repulsionPass k ns = forEach (repelPair k) (orderedPairs (length ns)) ns"
  by (simp add: repulsionPass_def orderedPairs_def repelOuter_forEach)

lemma attractionPass_forEach: "attractionPass k rels ns = forEach (attract k) rels ns"
  by (induction rels arbitrary: ns) (simp_all split: bind_splits option.splits)

lemma flooredDistance_far:
  "0.1 \<le> euclidean p q \<Longrightarrow> flooredDistance p q = euclidean p q"
  by (simp add: flooredDistance_def)

lemma repel_unit:
  "0.1 \<le> euclidean (cPosition v) (cPosition u) \<Longrightarrow> repel (Some kv) v u = Some (specRepel kv v u)"
  by (simp add: repel_eq specRepel_def Let_def flooredDistance_far)

lemma attract_opposite:
  assumes "findNode (rFrom rel) ns = Some f" "findNode (rTo rel) ns = Some t" "kv \<noteq> 0" "f \<noteq> t"
  shows "attract (Some kv) rel ns =
    Some (let D = flooredDistance (cPosition (ns ! f)) (cPosition (ns ! t));
              ax = (X (cPosition (ns ! f)) - X (cPosition (ns ! t))) / D * (D * D / kv);
              ay = (Y (cPosition (ns ! f)) - Y (cPosition (ns ! t))) / D * (D * D / kv)
          in ns[f := moveBy (ns ! f) (- ax) (- ay), t := moveBy (ns ! t) ax ay])"
  using assms(4) by (simp add: attract_eq[OF assms(1,2,3)] Let_def)

lemma euclidean_horizontal: "Y p = Y q \<Longrightarrow> euclidean p q = \<bar>X p - X q\<bar>"
  by (simp add: euclidean_def)

subsection \<open>What processSchema builds\<close>

text \<open>Every node that \<open>processSchema\<close> builds has the zero position, and the canvas
  is the one set in \<open>main\<close>.\<close>

lemma replicate_snoc: "replicate n x @ [x] = replicate (Suc n) x"
  by (simp add: replicate_append_same)

lemma processDefinition_canvas:
  "format (processDefinition doc def d) = format d \<and>
   maxWidth (processDefinition doc def d) = maxWidth d \<and>
   maxHeight (processDefinition doc def d) = maxHeight d"
  by (cases def) (simp_all add: Let_def)

lemma processDefinitions_canvas:
  "format (processDefinitions doc defs d) = format d \<and>
   maxWidth (processDefinitions doc defs d) = maxWidth d \<and>
   maxHeight (processDefinitions doc defs d) = maxHeight d"
  by (induction defs arbitrary: d) (simp_all add: processDefinition_canvas)

lemma processSchema_canvas:
  "format (processSchema doc (startDiagram flag)) = (if flag = ''drawio'' then DrawIO else Mermaid)"
  "maxWidth (processSchema doc (startDiagram flag)) = 1920"
  "maxHeight (processSchema doc (startDiagram flag)) = 1080"
  by (simp_all add: processSchema_def processDefinitions_canvas startDiagram_def)

lemma processDefinition_origin:
  assumes "map cPosition (Classes d) = replicate (length (Classes d)) origin"
    and "map sPosition (Scalars d) = replicate (length (Scalars d)) origin"
    and "map dPosition (Directives d) = replicate (length (Directives d)) origin"
  shows "map cPosition (Classes (processDefinition doc def d))
           = replicate (length (Classes (processDefinition doc def d))) origin \<and>
         map sPosition (Scalars (processDefinition doc def d))
           = replicate (length (Scalars (processDefinition doc def d))) origin \<and>
         map dPosition (Directives (processDefinition doc def d))
           = replicate (length (Directives (processDefinition doc def d))) origin"
  using assms
  by (cases def)
     (simp_all add: Let_def newClass_def newScalar_def newDirective_def origin_def
        replicate_append_same)

lemma processDefinitions_origin:
  assumes "map cPosition (Classes d) = replicate (length (Classes d)) origin"
    and "map sPosition (Scalars d) = replicate (length (Scalars d)) origin"
    and "map dPosition (Directives d) = replicate (length (Directives d)) origin"
  shows "map cPosition (Classes (processDefinitions doc defs d))
           = replicate (length (Classes (processDefinitions doc defs d))) origin \<and>
         map sPosition (Scalars (processDefinitions doc defs d))
           = replicate (length (Scalars (processDefinitions doc defs d))) origin \<and>
         map dPosition (Directives (processDefinitions doc defs d))
           = replicate (length (Directives (processDefinitions doc defs d))) origin"
  using assms
proof (induction defs arbitrary: d)
  case Nil
  then show ?case by simp
next
  case (Cons def defs)
  from processDefinition_origin[OF Cons.prems, of doc "def"]
  show ?case using Cons.IH[of "processDefinition doc def d"] by simp
qed

lemma processSchema_origin:
  "map cPosition (Classes (processSchema doc (startDiagram flag)))
     = replicate (length (Classes (processSchema doc (startDiagram flag)))) origin"
  "map sPosition (Scalars (processSchema doc (startDiagram flag)))
     = replicate (length (Scalars (processSchema doc (startDiagram flag)))) origin"
  "map dPosition (Directives (processSchema doc (startDiagram flag)))
     = replicate (length (Directives (processSchema doc (startDiagram flag)))) origin"
  using processDefinitions_origin[of "startDiagram flag" doc doc]
  by (simp_all add: processSchema_def startDiagram_def)

subsection \<open>Further facts about the draw.io output\<close>

lemma initialNodes_classes: "take (length (Classes d)) (fst (initialNodes d r)) = Classes d"
  by (simp add: initialNodes_fst)

lemma generateDrawIOXML_Some:
  assumes "0 < maxWidth d" "0 < maxHeight d"
  shows "\<exists>file d' r'. generateDrawIOXML d r = Some (file, d', r')"
proof -
  obtain d1 r1 where c1: "calculateLayout d r = Some (d1, r1)"
    using calculateLayout_Some[OF assms] by blast
  have f1: "d1 = d\<lparr>Classes := Classes d1\<rparr>" by (rule calculateLayout_frame(1)[OF c1])
  let ?d2 = "d1\<lparr>Classes := Classes d1 @ map scalarClass (Scalars d1)\<rparr>"
  have "maxWidth d1 = maxWidth d" "maxHeight d1 = maxHeight d" by (subst f1, simp)+
  then have p2: "0 < maxWidth ?d2" "0 < maxHeight ?d2" using assms by simp_all
  obtain d3 r3 where c3: "calculateLayout ?d2 r1 = Some (d3, r3)"
    using calculateLayout_Some[OF p2] by blast
  have f3: "d3 = ?d2\<lparr>Classes := Classes d3\<rparr>" by (rule calculateLayout_frame(1)[OF c3])
  let ?d4 = "d3\<lparr>Classes := Classes d3 @ map directiveClass (Directives d3)\<rparr>"
  have "maxWidth d3 = maxWidth ?d2" "maxHeight d3 = maxHeight ?d2" by (subst f3, simp)+
  then have p4: "0 < maxWidth ?d4" "0 < maxHeight ?d4" using p2 by simp_all
  obtain d5 r5 where c5: "calculateLayout ?d4 r3 = Some (d5, r5)"
    using calculateLayout_Some[OF p4] by blast
  show ?thesis by (simp add: generateDrawIOXML_def Let_def c1 c3 c5)
qed

lemma scalarCell_origin:
  "sPosition s = origin \<Longrightarrow>
   mGeometry (scalarCell s) = Some \<lparr>gX = 0, gY = 0, gWidth = 80, gHeight = 80, gRelative = []\<rparr>"
  by (simp add: scalarCell_def origin_def ScalarWidth_def ScalarHeight_def)

lemma scalarCells_origin:
  "map sPosition ss = replicate (length ss) origin \<Longrightarrow>
   map mGeometry (map scalarCell ss)
     = replicate (length ss) (Some \<lparr>gX = 0, gY = 0, gWidth = 80, gHeight = 80, gRelative = []\<rparr>)"
proof (induction ss)
  case Nil
  then show ?case by simp
next
  case (Cons s ss)
  then show ?case by (simp add: scalarCell_origin)
qed

subsection \<open>The example diagrams are what processSchema builds\<close>

lemma twoTypes_processed: "processSchema twoTypesSchema (startDiagram ''drawio'') = twoClasses"
  by (simp add: processSchema_def twoTypesSchema_def startDiagram_def twoClasses_def
      isObjectType_def classField_def usesRelation_def)

lemma mixed_processed: "processSchema mixedSchema (startDiagram ''drawio'') = mixed"
  by (simp add: processSchema_def mixedSchema_def startDiagram_def mixed_def
      isObjectType_def isCustomScalar_def classField_def directiveArgument_def usesRelation_def)

lemma date_processed: "processSchema dateSchema (startDiagram ''drawio'') = oneScalar"
  by (simp add: processSchema_def dateSchema_def startDiagram_def oneScalar_def)

subsection \<open>The whole program\<close>

lemma outputDiagram_prefix:
  assumes "stake (3 * draws d) r = stake (3 * draws d) r'"
  shows "stripRng (outputDiagram d r) = stripRng (outputDiagram d r')"
proof (cases "format d")
  case Mermaid
  then show ?thesis by (simp add: outputDiagram_def stripRng_def)
next
  case DrawIO
  from generateDrawIOXML_prefix[OF assms]
  have g: "stripRng (generateDrawIOXML d r) = stripRng (generateDrawIOXML d r')" .
  show ?thesis
  proof (cases "generateDrawIOXML d r")
    case None
    then have "generateDrawIOXML d r' = None" using g by (simp add: stripRng_def)
    then show ?thesis using None DrawIO by (simp add: outputDiagram_def)
  next
    case (Some a)
    obtain f d1 r1 where a: "a = (f, d1, r1)" by (cases a)
    from Some a g obtain r1' where "generateDrawIOXML d r' = Some (f, d1, r1')"
      by (cases "generateDrawIOXML d r'") (auto simp: stripRng_def)
    then show ?thesis using Some a DrawIO by (simp add: outputDiagram_def stripRng_def)
  qed
qed

lemma oneScalar_export:
  "\<exists>file d' r' c. generateDrawIOXML oneScalar halves = Some (file, d', r') \<and>
     Cells file = rootCells @ [scalarCell (newScalar ''Date'' [])] \<and>
     mGeometry (scalarCell (newScalar ''Date'' []))
       = Some \<lparr>gX = 0, gY = 0, gWidth = 80, gHeight = 80, gRelative = []\<rparr> \<and>
     Classes d' = [c] \<and> cID c = ''scalar_Date'' \<and> X (cPosition c) < 0"
proof -
  let ?a = "scalarClass (newScalar ''Date'' [])"
  have a0: "X (cPosition ?a) \<le> 0" by (simp add: scalarClass_def)
  from scalar_layout_step[OF a0] obtain a1 where
    c2: "calculateLayout (oneScalar\<lparr>Classes := [?a]\<rparr>) halves = Some (oneScalar\<lparr>Classes := [a1]\<rparr>, halves)"
    and l1: "X (cPosition a1) < X (cPosition ?a)" and e1: "erasePos a1 = erasePos ?a" by blast
  have a1: "X (cPosition a1) \<le> 0" using l1 by (simp add: scalarClass_def)
  from scalar_layout_step[OF a1] obtain a2 where
    c3: "calculateLayout (oneScalar\<lparr>Classes := [a1]\<rparr>) halves = Some (oneScalar\<lparr>Classes := [a2]\<rparr>, halves)"
    and l2: "X (cPosition a2) < X (cPosition a1)" and e2: "erasePos a2 = erasePos a1" by blast
  have "cID (erasePos a2) = cID (erasePos ?a)" using e1 e2 by simp
  then have id: "cID a2 = ''scalar_Date''" by (simp add: erasePos_def scalarClass_def newScalar_def)
  have neg: "X (cPosition a2) < 0" using l2 a1 by simp
  have s: "Scalars oneScalar = [newScalar ''Date'' []]" "Directives oneScalar = []"
    "Classes oneScalar = []" "Relations oneScalar = []"
    by (simp_all add: oneScalar_def)
  have g: "generateDrawIOXML oneScalar halves
        = Some (\<lparr>diagramName = ''GraphQL Schema'',
                  Cells = rootCells @ [scalarCell (newScalar ''Date'' [])]\<rparr>,
                oneScalar\<lparr>Classes := [a2]\<rparr>, halves)"
    by (simp add: generateDrawIOXML_def oneScalar_first Let_def s c2 c3)
  have m: "mGeometry (scalarCell (newScalar ''Date'' []))
       = Some \<lparr>gX = 0, gY = 0, gWidth = 80, gHeight = 80, gRelative = []\<rparr>"
    by (simp add: scalarCell_def newScalar_def ScalarWidth_def ScalarHeight_def)
  show ?thesis using g m id neg by simp
qed

lemma processed_export:
  "\<exists>file d' r' pre post.
     generateDrawIOXML (processSchema doc (startDiagram flag)) r = Some (file, d', r') \<and>
     Cells file = pre @ map scalarCell (Scalars (processSchema doc (startDiagram flag))) @ post"
proof -
  let ?D = "processSchema doc (startDiagram flag)"
  have "0 < maxWidth ?D" "0 < maxHeight ?D" by (simp_all add: processSchema_canvas)
  then obtain out d' r' where g: "generateDrawIOXML ?D r = Some (out, d', r')"
    using generateDrawIOXML_Some by blast
  from generateDrawIOXML_cells[OF g] obtain d1 r1 where
    c: "calculateLayout ?D r = Some (d1, r1) \<and>
        Cells out = rootCells @ concat (map classCells (Classes d1)) @ edgeCells 0 (Relations ?D)
                  @ map scalarCell (Scalars ?D) @ concat (map directiveCells (Directives ?D)) \<and>
        Scalars d' = Scalars ?D \<and> Directives d' = Directives ?D \<and>
        diagramName out = ''GraphQL Schema''"
    by (elim exE)
  then have "Cells out = (rootCells @ concat (map classCells (Classes d1)) @ edgeCells 0 (Relations ?D))
                  @ map scalarCell (Scalars ?D) @ concat (map directiveCells (Directives ?D))"
    by (simp only: append_assoc)
  with g show ?thesis by (intro exI conjI)
qed

subsection \<open>binary64: the integer helpers and some values\<close>

lemma sqrtRem_spec:
  "0 \<le> n \<Longrightarrow> (case sqrtRem n of (r, d) \<Rightarrow> n = r * r + d \<and> 0 \<le> d \<and> d \<le> 2 * r)"
proof (induction n rule: sqrtRem.induct)
  case (1 n)
  show ?case
  proof (cases "n \<le> 0")
    case True
    with 1(2) show ?thesis by (simp add: sqrtRem.simps)
  next
    case False
    obtain r d where rd: "sqrtRem (n div 4) = (r, d)" by (cases "sqrtRem (n div 4)")
    from 1(1)[OF False] 1(2) rd have ih: "n div 4 = r * r + d" "0 \<le> d" "d \<le> 2 * r" by auto
    have n: "n = 4 * (n div 4) + n mod 4" by simp
    have m: "0 \<le> n mod 4" "n mod 4 \<le> 3" by simp_all
    have e: "n = 4 * (r * r) + (4 * d + n mod 4)" using n ih(1) by (simp add: algebra_simps)
    show ?thesis
    proof (cases "4 * r + 1 \<le> 4 * d + n mod 4")
      case True
      have "sqrtRem n = (2 * r + 1, 4 * d + n mod 4 - (4 * r + 1))"
        using False rd True by (subst sqrtRem.simps) (simp add: Let_def)
      moreover have "n = (2 * r + 1) * (2 * r + 1) + (4 * d + n mod 4 - (4 * r + 1))"
        using e by (simp add: algebra_simps)
      ultimately show ?thesis using True ih m by auto
    next
      case c: False
      have "sqrtRem n = (2 * r, 4 * d + n mod 4)"
        using False rd c by (subst sqrtRem.simps) (simp add: Let_def)
      moreover have "n = (2 * r) * (2 * r) + (4 * d + n mod 4)"
        using e by (simp add: algebra_simps)
      ultimately show ?thesis using c ih m by auto
    qed
  qed
qed

lemma bitlen_nonneg: "0 \<le> bitlen n"
proof (induction n rule: bitlen.induct)
  case (1 n)
  show ?case
  proof (cases "n \<le> 0")
    case True
    then show ?thesis by (subst bitlen.simps) simp
  next
    case False
    with 1 have "0 \<le> bitlen (n div 2)" by simp
    with False show ?thesis by (subst bitlen.simps) simp
  qed
qed

lemma bitlen_spec: "0 < n \<Longrightarrow> 2 ^ nat (bitlen n - 1) \<le> n \<and> n < 2 ^ nat (bitlen n)"
proof (induction n rule: bitlen.induct)
  case (1 n)
  show ?case
  proof (cases "n = 1")
    case True
    then show ?thesis by (simp add: bitlen.simps)
  next
    case False
    with 1(2) have h: "0 < n div 2" by simp
    from 1(1) 1(2) h have ih: "2 ^ nat (bitlen (n div 2) - 1) \<le> n div 2"
      "n div 2 < 2 ^ nat (bitlen (n div 2))"
      by auto
    have b: "bitlen n = 1 + bitlen (n div 2)" using 1(2) by (subst bitlen.simps) simp
    have p: "0 < bitlen (n div 2)"
      using h bitlen_nonneg[of "n div 2 div 2"] by (subst bitlen.simps) simp
    have "nat (bitlen n - 1) = Suc (nat (bitlen (n div 2) - 1))" using b p by simp
    moreover have "nat (bitlen n) = Suc (nat (bitlen (n div 2)))" using b p by simp
    ultimately show ?thesis using ih by simp linarith
  qed
qed

text \<open>One third and the root of two; the largest finite value times two; the largest
  finite value plus less than half, and plus half, of the distance to \<open>2 ^ 1024\<close>; two
  ties among the subnormal numbers; zero times an infinity; a zero divisor; \<open>math.Max\<close>
  with a NaN.\<close>

lemma binary64_examples:
  "fdiv64 (ofInt 1) (ofInt 3) = Fin 6004799503160661 (- 54)"
  "fsqrt64 (ofInt 2) = Fin 6369051672525773 (- 52)"
  "fmul64 (Fin 9007199254740991 971) (ofInt 2) = PInf"
  "fadd64 (Fin 9007199254740991 971) (Fin 1 969) = Fin 9007199254740991 971"
  "fadd64 (Fin 9007199254740991 971) (Fin 1 970) = PInf"
  "fdiv64 (Fin 3 (- 1074)) (ofInt 2) = Fin 1 (- 1073)"
  "fdiv64 (Fin 1 (- 1074)) (ofInt 2) = Fin 0 0"
  "fmul64 (Fin 0 0) PInf = NaN"
  "fdiv64 (ofInt 1) (Fin 0 0) = PInf"
  "fmax64 tenth NaN = NaN"
  by code_simp+

subsection \<open>binary64: rounding a value of the format, and zero\<close>









lemma tenth_eq: "tenth = Fin 3602879701896397 (- 55)"
  by code_simp




subsection \<open>binary64: only positions change\<close>











subsection \<open>binary64: relations that do not resolve\<close>







subsection \<open>binary64: coincident nodes\<close>






subsection \<open>binary64: a NaN stays\<close>








subsection \<open>binary64: the layout of the example \<open>mixed\<close>, round by round\<close>











text \<open>The numbers behind some of these values: \<open>k\<close>, the class \<open>A\<close> after the first
  round, and its first coordinate after the fourth round.\<close>

lemma mixed64_decimal:
  "\<bar>valof mixedK - 831.3843876330611\<bar> < 1 / 10 ^ 10"
  "\<bar>valof (Fin 2902209155955557 (- 37)) - 21116.35080622769\<bar> < 1 / 10 ^ 10"
  "\<bar>valof (Fin 3264985300450003 (- 38)) - 11877.94732850308\<bar> < 1 / 10 ^ 10"
  "\<bar>valof (Fin 3577735058518827 260) / 10 ^ 93 - 6.628374674615787\<bar> < 1 / 10 ^ 10"
  by (simp_all add: mixedK_def)



subsection \<open>binary64: the example \<open>twins\<close>\<close>


lemma twins64_finite: "finite64 (Fin 5 0)" "finite64 (Fin 7 0)"
  by (simp_all add: bitlen.simps)






section \<open>Claims\<close>

text \<open>
  C1 (the code departs from the claim). The claim: before the simulation starts every
  node of the three groups, class nodes included, has a position drawn at random in the
  canvas. In \<open>calculateLayout\<close> only the scalar and directive nodes are given a random
  position; the class nodes enter with the position stored in \<open>d.Classes\<close>, which
  \<open>processSchema\<close> leaves at the zero value. So for every schema document, every flag and
  every random source \<open>r\<close>, all class nodes start the first layout at the origin. For
  the schema of two object types the node list at the start is the class list itself, no
  value is taken from \<open>r\<close>, and the whole layout leaves both classes at the origin.
\<close>

theorem classes_start_unrandomised:
  "map cPosition (take (length (Classes (processSchema doc (startDiagram flag))))
        (fst (initialNodes (processSchema doc (startDiagram flag)) r)))
     = replicate (length (Classes (processSchema doc (startDiagram flag)))) origin \<and>
   processSchema twoTypesSchema (startDiagram ''drawio'') = twoClasses \<and>
   initialNodes twoClasses r = (Classes twoClasses, r) \<and>
   map cPosition (Classes twoClasses) = [origin, origin] \<and>
   calculateLayout twoClasses r = Some (twoClasses, r)"
proof (intro conjI)
  show "map cPosition (take (length (Classes (processSchema doc (startDiagram flag))))
        (fst (initialNodes (processSchema doc (startDiagram flag)) r)))
     = replicate (length (Classes (processSchema doc (startDiagram flag)))) origin"
    by (simp only: initialNodes_classes processSchema_origin(1))
  show "processSchema twoTypesSchema (startDiagram ''drawio'') = twoClasses"
    by (rule twoTypes_processed)
  show "initialNodes twoClasses r = (Classes twoClasses, r)"
    by (simp add: initialNodes_def twoClasses_def)
  show "map cPosition (Classes twoClasses) = [origin, origin]"
    by (simp add: twoClasses_def newClass_def origin_def)
  show "calculateLayout twoClasses r = Some (twoClasses, r)"
    by (rule calculateLayout_coincident[OF _ _ _ _ twoClasses_positions]) (simp_all add: twoClasses_def)
qed




text \<open>
  C3 (the code departs from the claim). The claim: the x and y written into the cell of
  every node, scalar and directive nodes included, are the position the simulation computed
  for that node. \<open>generateDrawIOXML\<close> appends a node for each scalar to \<open>d.Classes\<close> and
  runs the layout again, but then writes the cell from \<open>scalar.Position\<close>, a field that
  nothing ever assigns. So for every schema document and every random source the output
  is produced and holds the scalars' cells, all of them at (0, 0). For the schema with
  the one scalar \<open>Date\<close> the scalar's cell is at (0, 0), while the node \<open>scalar_Date\<close>
  that the simulation moved ends left of the origin.
\<close>

theorem scalar_cell_not_simulated:
  "(\<exists>file d' r' pre post.
      generateDrawIOXML (processSchema doc (startDiagram flag)) r = Some (file, d', r') \<and>
      Cells file = pre @ map scalarCell (Scalars (processSchema doc (startDiagram flag))) @ post) \<and>
   map mGeometry (map scalarCell (Scalars (processSchema doc (startDiagram flag))))
     = replicate (length (Scalars (processSchema doc (startDiagram flag))))
         (Some \<lparr>gX = 0, gY = 0, gWidth = 80, gHeight = 80, gRelative = []\<rparr>) \<and>
   processSchema dateSchema (startDiagram ''drawio'') = oneScalar \<and>
   (\<exists>file d' r' c. generateDrawIOXML oneScalar halves = Some (file, d', r') \<and>
      Cells file = rootCells @ [scalarCell (newScalar ''Date'' [])] \<and>
      mGeometry (scalarCell (newScalar ''Date'' []))
        = Some \<lparr>gX = 0, gY = 0, gWidth = 80, gHeight = 80, gRelative = []\<rparr> \<and>
      Classes d' = [c] \<and> cID c = ''scalar_Date'' \<and> X (cPosition c) < 0)"
  using processed_export[of doc flag r] scalarCells_origin[OF processSchema_origin(2), of doc flag]
    date_processed oneScalar_export by blast

text \<open>
  C4 (corrected). The claim: with zero nodes the layout fails with an EmptyGraphError,
  performs no layout and mutates no state. \<open>calculateLayout\<close> has no error result at
  all. On the diagram without nodes it completes normally and returns the diagram and the
  random source as they were.
\<close>

theorem empty_graph_counterexample:
  "calculateLayout emptyDiagram halves = Some (emptyDiagram, halves)"
  by (rule calculateLayout_empty) (simp_all add: emptyDiagram_def)

text \<open>
  C4 as amended: with zero nodes the layout raises no error. The division by the node
  count has a zero divisor, so \<open>k\<close> is not a finite number, but \<open>k\<close> is never read: the
  call completes, performs no layout and leaves the diagram and the random source
  unchanged.
\<close>

theorem empty_graph_no_error:
  "Classes d = [] \<Longrightarrow> Scalars d = [] \<Longrightarrow> Directives d = [] \<Longrightarrow>
   layoutK d = None \<and> calculateLayout d r = Some (d, r)"
  by (simp add: calculateLayout_empty layoutK_def fdiv_def)

theorem empty_graph_no_error_witness:
  "Classes emptyDiagram = [] \<and> Scalars emptyDiagram = [] \<and> Directives emptyDiagram = [] \<and>
   layoutK emptyDiagram = None \<and>
   calculateLayout emptyDiagram (sconst 0) = Some (emptyDiagram, sconst 0)"
  using empty_graph_no_error[of emptyDiagram "sconst 0"] by (simp add: emptyDiagram_def)

text \<open>
  C5 (corrected). The claim: the repulsion step adds to \<open>v\<close> the unit vector of
  (v.pos - u.pos) scaled by \<open>k\<^sup>2 / d\<close>. The code divides the displacement by the floored
  distance, which is not its length when the two nodes are closer than 0.1: for \<open>v\<close> at
  (0.05, 0), \<open>u\<close> at the origin and \<open>k = 1\<close> the code moves \<open>v\<close> to x = 5.05, the
  claim's formula to x = 10.05.
\<close>

theorem unit_vector_counterexample:
  "repel (Some 1) (nodeAt ''V'' 0.05 0) (nodeAt ''U'' 0 0) = Some (nodeAt ''V'' 5.05 0) \<and>
   specRepel 1 (nodeAt ''V'' 0.05 0) (nodeAt ''U'' 0 0) = nodeAt ''V'' 10.05 0"
proof
  have e: "euclidean (cPosition (nodeAt ''V'' 0.05 0)) (cPosition (nodeAt ''U'' 0 0)) = 0.05"
    by (simp add: euclidean_horizontal nodeAt_def)
  then have d: "flooredDistance (cPosition (nodeAt ''V'' 0.05 0)) (cPosition (nodeAt ''U'' 0 0)) = 0.1"
    by (simp add: flooredDistance_def)
  show "repel (Some 1) (nodeAt ''V'' 0.05 0) (nodeAt ''U'' 0 0) = Some (nodeAt ''V'' 5.05 0)"
    unfolding repel_eq d by (simp add: nodeAt_def moveBy_def)
  show "specRepel 1 (nodeAt ''V'' 0.05 0) (nodeAt ''U'' 0 0) = nodeAt ''V'' 10.05 0"
    unfolding specRepel_def Let_def e d by (simp add: nodeAt_def moveBy_def)
qed

text \<open>
  C5 as amended: in every round the repulsion pass visits every ordered pair of distinct
  nodes (v, u), in slice order, and adds to the position of \<open>v\<close> the displacement
  (v.pos - u.pos) divided by \<open>d\<close> and scaled by \<open>k\<^sup>2 / d\<close>, with \<open>d\<close> the floored
  distance; this is the unit vector scaled by \<open>k\<^sup>2 / d\<close> when the two nodes are at least
  0.1 apart. The attraction pass visits every relation in order and, for a relation that
  resolves to two different nodes, moves the from node by minus and the to node by plus the
  displacement divided by \<open>d\<close> and scaled by \<open>d\<^sup>2 / k\<close>: equal and opposite vectors.
\<close>

theorem force_steps:
  "repulsionPass k ns = forEach (repelPair k) (orderedPairs (length ns)) ns \<and>
   attractionPass k rels ns = forEach (attract k) rels ns \<and>
   repel (Some kv) v u =
     Some (moveBy v
       ((X (cPosition v) - X (cPosition u)) / flooredDistance (cPosition v) (cPosition u)
          * (kv * kv / flooredDistance (cPosition v) (cPosition u)))
       ((Y (cPosition v) - Y (cPosition u)) / flooredDistance (cPosition v) (cPosition u)
          * (kv * kv / flooredDistance (cPosition v) (cPosition u)))) \<and>
   (0.1 \<le> euclidean (cPosition v) (cPosition u) \<longrightarrow>
      repel (Some kv) v u = Some (specRepel kv v u)) \<and>
   (findNode (rFrom rel) ns = Some f \<and> findNode (rTo rel) ns = Some t \<and> kv \<noteq> 0 \<and> f \<noteq> t \<longrightarrow>
      attract (Some kv) rel ns =
        Some (let D = flooredDistance (cPosition (ns ! f)) (cPosition (ns ! t));
                  ax = (X (cPosition (ns ! f)) - X (cPosition (ns ! t))) / D * (D * D / kv);
                  ay = (Y (cPosition (ns ! f)) - Y (cPosition (ns ! t))) / D * (D * D / kv)
              in ns[f := moveBy (ns ! f) (- ax) (- ay), t := moveBy (ns ! t) ax ay]))"
proof (intro conjI impI)
  show "repulsionPass k ns = forEach (repelPair k) (orderedPairs (length ns)) ns"
    by (rule repulsionPass_forEach)
  show "attractionPass k rels ns = forEach (attract k) rels ns" by (rule attractionPass_forEach)
  show "repel (Some kv) v u =
     Some (moveBy v
       ((X (cPosition v) - X (cPosition u)) / flooredDistance (cPosition v) (cPosition u)
          * (kv * kv / flooredDistance (cPosition v) (cPosition u)))
       ((Y (cPosition v) - Y (cPosition u)) / flooredDistance (cPosition v) (cPosition u)
          * (kv * kv / flooredDistance (cPosition v) (cPosition u))))"
    by (rule repel_eq)
next
  assume "0.1 \<le> euclidean (cPosition v) (cPosition u)"
  then show "repel (Some kv) v u = Some (specRepel kv v u)" by (rule repel_unit)
next
  assume "findNode (rFrom rel) ns = Some f \<and> findNode (rTo rel) ns = Some t \<and> kv \<noteq> 0 \<and> f \<noteq> t"
  then show "attract (Some kv) rel ns =
        Some (let D = flooredDistance (cPosition (ns ! f)) (cPosition (ns ! t));
                  ax = (X (cPosition (ns ! f)) - X (cPosition (ns ! t))) / D * (D * D / kv);
                  ay = (Y (cPosition (ns ! f)) - Y (cPosition (ns ! t))) / D * (D * D / kv)
              in ns[f := moveBy (ns ! f) (- ax) (- ay), t := moveBy (ns ! t) ax ay])"
    using attract_opposite by blast
qed

theorem force_steps_witness:
  "orderedPairs (length pairAB) = [(0, 1), (1, 0)] \<and>
   repulsionPass (Some 1) pairAB = forEach (repelPair (Some 1)) [(0, 1), (1, 0)] pairAB \<and>
   0.1 \<le> euclidean (cPosition (nodeAt ''B'' 3 0)) (cPosition (nodeAt ''A'' 0 0)) \<and>
   repel (Some 1) (nodeAt ''B'' 3 0) (nodeAt ''A'' 0 0)
     = Some (specRepel 1 (nodeAt ''B'' 3 0) (nodeAt ''A'' 0 0)) \<and>
   specRepel 1 (nodeAt ''B'' 3 0) (nodeAt ''A'' 0 0) = nodeAt ''B'' (10 / 3) 0 \<and>
   findNode ''A'' pairAB = Some 0 \<and> findNode ''B'' pairAB = Some 1 \<and> (1::real) \<noteq> 0 \<and>
   (0::nat) \<noteq> 1 \<and>
   attract (Some 1) (usesRelation ''A'' ''B'') pairAB = Some [nodeAt ''A'' 9 0, nodeAt ''B'' (- 6) 0]"
proof -
  note t = force_steps[of "Some 1" pairAB "[usesRelation ''A'' ''B'']" 1 "nodeAt ''B'' 3 0"
      "nodeAt ''A'' 0 0" "usesRelation ''A'' ''B''" 0 1]
  have o: "orderedPairs (length pairAB) = [(0, 1), (1, 0)]"
    by (simp add: orderedPairs_def pairAB_def)
  have e: "euclidean (cPosition (nodeAt ''B'' 3 0)) (cPosition (nodeAt ''A'' 0 0)) = 3"
    by (simp add: euclidean_horizontal nodeAt_def)
  have d: "flooredDistance (cPosition (nodeAt ''B'' 3 0)) (cPosition (nodeAt ''A'' 0 0)) = 3"
    by (simp add: flooredDistance_def e)
  have e2: "euclidean (cPosition (nodeAt ''A'' 0 0)) (cPosition (nodeAt ''B'' 3 0)) = 3"
    by (simp add: euclidean_horizontal nodeAt_def)
  have d2: "flooredDistance (cPosition (nodeAt ''A'' 0 0)) (cPosition (nodeAt ''B'' 3 0)) = 3"
    by (simp add: flooredDistance_def e2)
  have f: "findNode ''A'' pairAB = Some 0" "findNode ''B'' pairAB = Some 1"
    by (simp_all add: pairAB_def findNode_def nodeAt_def newClass_def)
  have n: "pairAB ! 0 = nodeAt ''A'' 0 0" "pairAB ! 1 = nodeAt ''B'' 3 0"
    by (simp_all add: pairAB_def)
  from t have "repulsionPass (Some 1) pairAB
      = forEach (repelPair (Some 1)) (orderedPairs (length pairAB)) pairAB" by blast
  then have c1: "repulsionPass (Some 1) pairAB = forEach (repelPair (Some 1)) [(0, 1), (1, 0)] pairAB"
    by (simp only: o)
  have h: "0.1 \<le> euclidean (cPosition (nodeAt ''B'' 3 0)) (cPosition (nodeAt ''A'' 0 0))"
    by (simp add: e)
  from t h have c2: "repel (Some 1) (nodeAt ''B'' 3 0) (nodeAt ''A'' 0 0)
     = Some (specRepel 1 (nodeAt ''B'' 3 0) (nodeAt ''A'' 0 0))"
    by blast
  have c3: "specRepel 1 (nodeAt ''B'' 3 0) (nodeAt ''A'' 0 0) = nodeAt ''B'' (10 / 3) 0"
    unfolding specRepel_def Let_def e d by (simp add: nodeAt_def moveBy_def)
  have h2: "findNode (rFrom (usesRelation ''A'' ''B'')) pairAB = Some 0 \<and>
      findNode (rTo (usesRelation ''A'' ''B'')) pairAB = Some 1 \<and> (1::real) \<noteq> 0 \<and> (0::nat) \<noteq> 1"
    using f by (simp add: usesRelation_def)
  from t h2 have "attract (Some 1) (usesRelation ''A'' ''B'') pairAB =
        Some (let D = flooredDistance (cPosition (pairAB ! 0)) (cPosition (pairAB ! 1));
                  ax = (X (cPosition (pairAB ! 0)) - X (cPosition (pairAB ! 1))) / D * (D * D / 1);
                  ay = (Y (cPosition (pairAB ! 0)) - Y (cPosition (pairAB ! 1))) / D * (D * D / 1)
              in pairAB[0 := moveBy (pairAB ! 0) (- ax) (- ay), 1 := moveBy (pairAB ! 1) ax ay])"
    by blast
  then have c4: "attract (Some 1) (usesRelation ''A'' ''B'') pairAB
      = Some [nodeAt ''A'' 9 0, nodeAt ''B'' (- 6) 0]"
    unfolding n d2 Let_def by (simp add: pairAB_def nodeAt_def moveBy_def)
  show ?thesis using o c1 h c2 c3 f c4 by simp
qed




text \<open>
  C7 (confirmed). The divisor \<open>dist\<close> of both passes is the floored distance
  \<open>max 0.1 (euclidean distance)\<close> of the two positions: it is at least 0.1, and exactly
  0.1 for coincident points. The repulsion step and the attraction step are the formulas
  below, written with that one distance. A repulsion step never meets a zero divisor; an
  attraction step meets one only through \<open>k\<close> (a resolving relation and \<open>k\<close> zero or
  not finite), never through the distance. With \<open>k\<close> finite and not zero no round of the
  simulation divides by zero, and on a canvas with positive bounds the whole layout
  completes.
\<close>

theorem no_zero_divisor:
  "0.1 \<le> flooredDistance p q \<and> flooredDistance p p = 0.1 \<and>
   repel (Some kv) v u =
     Some (moveBy v
       ((X (cPosition v) - X (cPosition u)) / flooredDistance (cPosition v) (cPosition u)
          * (kv * kv / flooredDistance (cPosition v) (cPosition u)))
       ((Y (cPosition v) - Y (cPosition u)) / flooredDistance (cPosition v) (cPosition u)
          * (kv * kv / flooredDistance (cPosition v) (cPosition u)))) \<and>
   (findNode (rFrom rel) ns = Some f \<and> findNode (rTo rel) ns = Some t \<and> kv \<noteq> 0 \<longrightarrow>
      attract (Some kv) rel ns =
        Some (let D = flooredDistance (cPosition (ns ! f)) (cPosition (ns ! t));
                  ax = (X (cPosition (ns ! f)) - X (cPosition (ns ! t))) / D * (D * D / kv);
                  ay = (Y (cPosition (ns ! f)) - Y (cPosition (ns ! t))) / D * (D * D / kv);
                  ns1 = ns[f := moveBy (ns ! f) (- ax) (- ay)]
              in ns1[t := moveBy (ns1 ! t) ax ay])) \<and>
   (repel k v u = None \<longleftrightarrow> k = None) \<and>
   (attract k rel ns = None \<longleftrightarrow> resolves ns rel \<and> (k = None \<or> k = Some 0)) \<and>
   (kv \<noteq> 0 \<longrightarrow> (\<exists>ns'. simulate n (Some kv) rels ns = Some ns')) \<and>
   (0 < maxWidth d \<and> 0 < maxHeight d \<longrightarrow> (\<exists>d' r'. calculateLayout d r = Some (d', r')))"
proof (intro conjI impI)
  show "0.1 \<le> flooredDistance p q" by (rule flooredDistance_ge)
  show "flooredDistance p p = 0.1" by (rule flooredDistance_self)
  show "repel (Some kv) v u =
     Some (moveBy v
       ((X (cPosition v) - X (cPosition u)) / flooredDistance (cPosition v) (cPosition u)
          * (kv * kv / flooredDistance (cPosition v) (cPosition u)))
       ((Y (cPosition v) - Y (cPosition u)) / flooredDistance (cPosition v) (cPosition u)
          * (kv * kv / flooredDistance (cPosition v) (cPosition u))))"
    by (rule repel_eq)
  show "(repel k v u = None) = (k = None)" by (rule repel_None)
  show "(attract k rel ns = None) = (resolves ns rel \<and> (k = None \<or> k = Some 0))"
    by (rule attract_None)
next
  assume "findNode (rFrom rel) ns = Some f \<and> findNode (rTo rel) ns = Some t \<and> kv \<noteq> 0"
  then show "attract (Some kv) rel ns =
        Some (let D = flooredDistance (cPosition (ns ! f)) (cPosition (ns ! t));
                  ax = (X (cPosition (ns ! f)) - X (cPosition (ns ! t))) / D * (D * D / kv);
                  ay = (Y (cPosition (ns ! f)) - Y (cPosition (ns ! t))) / D * (D * D / kv);
                  ns1 = ns[f := moveBy (ns ! f) (- ax) (- ay)]
              in ns1[t := moveBy (ns1 ! t) ax ay])"
    using attract_eq by blast
next
  assume "kv \<noteq> 0"
  then show "\<exists>ns'. simulate n (Some kv) rels ns = Some ns'" by (rule simulate_Some)
next
  assume "0 < maxWidth d \<and> 0 < maxHeight d"
  then show "\<exists>d' r'. calculateLayout d r = Some (d', r')"
    using calculateLayout_Some[of d r] by blast
qed

theorem no_zero_divisor_witness:
  "findNode ''A'' twinNodes = Some 0 \<and> findNode ''B'' twinNodes = Some 1 \<and> (1::real) \<noteq> 0 \<and>
   cPosition (twinNodes ! 0) = cPosition (twinNodes ! 1) \<and>
   flooredDistance (cPosition (twinNodes ! 0)) (cPosition (twinNodes ! 1)) = 0.1 \<and>
   repel (Some 1) (twinNodes ! 0) (twinNodes ! 1) = Some (twinNodes ! 0) \<and>
   attract (Some 1) (usesRelation ''A'' ''B'') twinNodes = Some twinNodes \<and>
   (\<exists>ns'. simulate iterations (Some 1) [usesRelation ''A'' ''B''] twinNodes = Some ns') \<and>
   0 < maxWidth mixed \<and> 0 < maxHeight mixed \<and>
   (\<exists>d' r'. calculateLayout mixed halves = Some (d', r'))"
proof -
  note t = no_zero_divisor[of "cPosition (twinNodes ! 0)" "cPosition (twinNodes ! 1)" 1
      "twinNodes ! 0" "twinNodes ! 1" "usesRelation ''A'' ''B''" twinNodes 0 1 "Some 1"
      iterations "[usesRelation ''A'' ''B'']" mixed halves]
  have f: "findNode ''A'' twinNodes = Some 0" "findNode ''B'' twinNodes = Some 1"
    by (simp_all add: twinNodes_def twins_def findNode_def newClass_def)
  have c: "cPosition (twinNodes ! 0) = cPosition (twinNodes ! 1)"
    by (simp add: twinNodes_def twins_def)
  have p: "0 < maxWidth mixed \<and> 0 < maxHeight mixed" by (simp add: mixed_def)
  have d: "flooredDistance (cPosition (twinNodes ! 0)) (cPosition (twinNodes ! 1)) = 0.1"
    using t c by simp
  have r: "repel (Some 1) (twinNodes ! 0) (twinNodes ! 1) = Some (twinNodes ! 0)"
    using t c by (simp add: moveBy_def)
  have "attract (Some 1) (usesRelation ''A'' ''B'') twinNodes =
        Some (let D = flooredDistance (cPosition (twinNodes ! 0)) (cPosition (twinNodes ! 1));
                  ax = (X (cPosition (twinNodes ! 0)) - X (cPosition (twinNodes ! 1))) / D * (D * D / 1);
                  ay = (Y (cPosition (twinNodes ! 0)) - Y (cPosition (twinNodes ! 1))) / D * (D * D / 1);
                  ns1 = twinNodes[0 := moveBy (twinNodes ! 0) (- ax) (- ay)]
              in ns1[1 := moveBy (ns1 ! 1) ax ay])"
    using t f by (simp add: usesRelation_def)
  then have a: "attract (Some 1) (usesRelation ''A'' ''B'') twinNodes = Some twinNodes"
    by (simp add: Let_def moveBy_def twinNodes_def twins_def)
  have s: "\<exists>ns'. simulate iterations (Some 1) [usesRelation ''A'' ''B''] twinNodes = Some ns'"
    using t by simp
  have l: "\<exists>d' r'. calculateLayout mixed halves = Some (d', r')"
    using t p by blast
  show ?thesis using f c p d r a s l by simp
qed

text \<open>
  C8 (confirmed). One run of the simulation keeps the node list as it is up to positions:
  the same number of nodes, each with its identity, name, fields, width and height. One
  call of \<open>calculateLayout\<close> returns the diagram with its relations (labels and edge
  types included), scalars, directives, format and canvas untouched, and with the same
  classes up to their positions. On a canvas with positive bounds the call always
  completes.
\<close>

theorem layout_frame:
  "(\<forall>ns'. simulate n k rels ns = Some ns' \<longrightarrow> map erasePos ns' = map erasePos ns) \<and>
   (\<forall>d' r'. calculateLayout d r = Some (d', r') \<longrightarrow>
      Relations d' = Relations d \<and> Scalars d' = Scalars d \<and> Directives d' = Directives d \<and>
      format d' = format d \<and> maxWidth d' = maxWidth d \<and> maxHeight d' = maxHeight d \<and>
      length (Classes d') = length (Classes d) \<and>
      map erasePos (Classes d') = map erasePos (Classes d)) \<and>
   (0 < maxWidth d \<and> 0 < maxHeight d \<longrightarrow> (\<exists>d' r'. calculateLayout d r = Some (d', r')))"
proof (intro conjI allI impI)
  fix ns' assume "simulate n k rels ns = Some ns'"
  then show "map erasePos ns' = map erasePos ns" by (rule simulate_frame)
next
  fix d' r' assume a: "calculateLayout d r = Some (d', r')"
  note f = calculateLayout_frame[OF a]
  have e: "d' = d\<lparr>Classes := Classes d'\<rparr>" by (rule f(1))
  show "Relations d' = Relations d" by (subst e) simp
  show "Scalars d' = Scalars d" by (subst e) simp
  show "Directives d' = Directives d" by (subst e) simp
  show "format d' = format d" by (subst e) simp
  show "maxWidth d' = maxWidth d" by (subst e) simp
  show "maxHeight d' = maxHeight d" by (subst e) simp
  show "map erasePos (Classes d') = map erasePos (Classes d)" by (rule f(2))
  then have "length (map erasePos (Classes d')) = length (map erasePos (Classes d))" by simp
  then show "length (Classes d') = length (Classes d)" by simp
next
  assume "0 < maxWidth d \<and> 0 < maxHeight d"
  then show "\<exists>d' r'. calculateLayout d r = Some (d', r')"
    using calculateLayout_Some[of d r] by blast
qed

theorem layout_frame_witness:
  "0 < maxWidth mixed \<and> 0 < maxHeight mixed \<and>
   (\<exists>d' r'. calculateLayout mixed halves = Some (d', r') \<and>
      Relations d' = Relations mixed \<and> Scalars d' = Scalars mixed \<and>
      Directives d' = Directives mixed \<and> format d' = DrawIO \<and>
      maxWidth d' = 1920 \<and> maxHeight d' = 1080 \<and> length (Classes d') = 1 \<and>
      map erasePos (Classes d') = map erasePos (Classes mixed))"
proof -
  have p: "0 < maxWidth mixed \<and> 0 < maxHeight mixed" by (simp add: mixed_def)
  note t = layout_frame[of iterations "layoutK mixed" "Relations mixed" "Classes mixed" mixed halves]
  from t p obtain d' r' where c: "calculateLayout mixed halves = Some (d', r')" by blast
  from t c have "Relations d' = Relations mixed \<and> Scalars d' = Scalars mixed \<and>
      Directives d' = Directives mixed \<and> format d' = format mixed \<and>
      maxWidth d' = maxWidth mixed \<and> maxHeight d' = maxHeight mixed \<and>
      length (Classes d') = length (Classes mixed) \<and>
      map erasePos (Classes d') = map erasePos (Classes mixed)" by blast
  moreover have "format mixed = DrawIO" "maxWidth mixed = 1920" "maxHeight mixed = 1080"
    "length (Classes mixed) = 1" by (simp_all add: mixed_def)
  ultimately show ?thesis using p c by auto
qed

text \<open>
  C9 (confirmed). The layout is a function of the diagram and of the values the random
  source returns. One call of \<open>calculateLayout\<close> reads \<open>draws d\<close> values, the whole of
  \<open>generateDrawIOXML\<close> three times as many: two runs on the same diagram whose random
  sources agree on these values (as they do under one seed) end with the same diagram,
  hence the same position for every node, and the same cells in the output. The same
  holds for the program from the parsed schema on.
\<close>

theorem same_draws_same_layout:
  "(stake (draws d) r = stake (draws d) r' \<longrightarrow>
      map_option fst (calculateLayout d r) = map_option fst (calculateLayout d r')) \<and>
   (stake (3 * draws d) r = stake (3 * draws d) r' \<longrightarrow>
      stripRng (generateDrawIOXML d r) = stripRng (generateDrawIOXML d r')) \<and>
   (stake (3 * draws (processSchema doc (startDiagram flag))) r
      = stake (3 * draws (processSchema doc (startDiagram flag))) r' \<longrightarrow>
      stripRng (mainProgram flag doc r) = stripRng (mainProgram flag doc r'))"
  using calculateLayout_prefix[of d r r'] generateDrawIOXML_prefix[of d r r']
    outputDiagram_prefix[of "processSchema doc (startDiagram flag)" r r']
  unfolding mainProgram_def by blast

theorem same_draws_same_layout_witness:
  "stake (draws mixed) halves = stake (draws mixed) halvesThenZeros \<and>
   stake (3 * draws mixed) halves = stake (3 * draws mixed) halvesThenZeros \<and>
   stake (3 * draws (processSchema mixedSchema (startDiagram ''drawio''))) halves
     = stake (3 * draws (processSchema mixedSchema (startDiagram ''drawio''))) halvesThenZeros \<and>
   halves \<noteq> halvesThenZeros \<and>
   map_option fst (calculateLayout mixed halves) = map_option fst (calculateLayout mixed halvesThenZeros) \<and>
   stripRng (generateDrawIOXML mixed halves) = stripRng (generateDrawIOXML mixed halvesThenZeros) \<and>
   stripRng (mainProgram ''drawio'' mixedSchema halves)
     = stripRng (mainProgram ''drawio'' mixedSchema halvesThenZeros)"
proof -
  have a: "stake (draws mixed) halves = stake (draws mixed) halvesThenZeros"
    by (simp add: draws_mixed stake_halves stake_halvesThenZeros)
  have b: "stake (3 * draws mixed) halves = stake (3 * draws mixed) halvesThenZeros"
    by (simp add: draws_mixed stake_halves stake_halvesThenZeros)
  have c: "stake (3 * draws (processSchema mixedSchema (startDiagram ''drawio''))) halves
     = stake (3 * draws (processSchema mixedSchema (startDiagram ''drawio''))) halvesThenZeros"
    using b by (simp only: mixed_processed)
  show ?thesis
    using same_draws_same_layout[of mixed halves halvesThenZeros mixedSchema "''drawio''"] a b c
      streams_differ by blast
qed

text \<open>
  C10 (confirmed). With the mermaid format selected \<open>outputDiagram\<close> prints the mermaid
  text and leaves the diagram and the random source exactly as they were: the layout is
  not run and no random value is drawn. The text is the text of the diagram with every
  position blanked, so two diagrams that differ only in positions print the same text.
  The program selects the mermaid format for every value of the format flag other than
  \<open>drawio\<close>.
\<close>

theorem mermaid_no_layout:
  "(format d = Mermaid \<longrightarrow> outputDiagram d r = Some (Text (mermaidText (erasePositions d)), d, r)) \<and>
   (erasePositions d = erasePositions d2 \<longrightarrow> mermaidText d = mermaidText d2) \<and>
   (flag \<noteq> ''drawio'' \<longrightarrow>
      mainProgram flag doc r
        = Some (Text (mermaidText (processSchema doc (startDiagram flag))),
                processSchema doc (startDiagram flag), r))"
proof (intro conjI impI)
  assume "format d = Mermaid"
  then show "outputDiagram d r = Some (Text (mermaidText (erasePositions d)), d, r)"
    by (simp add: outputDiagram_def mermaidText_erasePositions)
next
  assume "erasePositions d = erasePositions d2"
  then have "mermaidText (erasePositions d) = mermaidText (erasePositions d2)" by simp
  then show "mermaidText d = mermaidText d2" by (simp only: mermaidText_erasePositions)
next
  assume "flag \<noteq> ''drawio''"
  then show "mainProgram flag doc r
        = Some (Text (mermaidText (processSchema doc (startDiagram flag))),
                processSchema doc (startDiagram flag), r)"
    by (simp add: mainProgram_def outputDiagram_def processSchema_canvas)
qed

theorem mermaid_no_layout_witness:
  "format mermaidExample = Mermaid \<and>
   outputDiagram mermaidExample halves
     = Some (Text (mermaidText (erasePositions mermaidExample)), mermaidExample, halves) \<and>
   erasePositions mermaidExample
     = erasePositions (mermaidExample\<lparr>Classes := map (\<lambda>c. moveBy c 3 4) (Classes mermaidExample)\<rparr>) \<and>
   mermaidText mermaidExample
     = mermaidText (mermaidExample\<lparr>Classes := map (\<lambda>c. moveBy c 3 4) (Classes mermaidExample)\<rparr>) \<and>
   ''mermaid'' \<noteq> ''drawio'' \<and>
   mainProgram ''mermaid'' mixedSchema halves
     = Some (Text (mermaidText (processSchema mixedSchema (startDiagram ''mermaid''))),
             processSchema mixedSchema (startDiagram ''mermaid''), halves)"
proof -
  note t = mermaid_no_layout[of mermaidExample halves
      "mermaidExample\<lparr>Classes := map (\<lambda>c. moveBy c 3 4) (Classes mermaidExample)\<rparr>"
      "''mermaid''" mixedSchema]
  have f: "format mermaidExample = Mermaid" by (simp add: mermaidExample_def)
  have e: "erasePositions mermaidExample
     = erasePositions (mermaidExample\<lparr>Classes := map (\<lambda>c. moveBy c 3 4) (Classes mermaidExample)\<rparr>)"
    by (simp add: erasePositions_def moveBy_def comp_def)
  have n: "''mermaid'' \<noteq> ''drawio''" by simp
  show ?thesis using t f e n by blast
qed

end
